theory Spec2Isabelle
  imports Main
begin

section \<open>Python values, exceptions and dictionaries\<close>

text \<open>
  The module \<^verbatim>\<open>etph.py\<close> is modelled as it runs under Python 3. An exception is a
  value of type \<open>error\<close>; a function that may raise returns \<open>error + 'a\<close> with \<open>Inl\<close>
  for the exception. \<open>OSError\<close> carries its \<^verbatim>\<open>errno\<close>.

  Files, the clock and the source of identifiers are a \<open>world\<close> that each operation
  takes and returns. The body of \<open>trigger\<close> is cut into the functions \<open>load_cfg\<close>,
  \<open>send_interval\<close>, \<open>read_last\<close>, \<open>gate_and_submit\<close> and
  \<open>persist_and_send\<close>, each a run of consecutive lines, and \<open>trigger\<close> is their
  composition with the two name-taking helpers. Since the name check fails for every name,
  what lies behind it is never reached from \<open>trigger\<close>; the theorems about those
  functions say what the lines do once control is there.
\<close>

datatype error =
    AttributeError
  | AssertionError
  | KeyError
  | TypeError
  | ValueError
  | UnboundLocalError
  | OverflowError
  | OSError nat

definition ENOENT :: nat where
  "ENOENT = 2"

text \<open>
  What \<^verbatim>\<open>json.load\<close> produces. Numbers are the integers; floating-point numbers are
  outside the model. A Python \<^verbatim>\<open>dict\<close> with string keys is a map.
\<close>

datatype json =
    JNull
  | JBool bool
  | JInt int
  | JStr string
  | JArr "json list"
  | JObj "string \<Rightarrow> json option"

type_synonym dict = "string \<Rightarrow> json option"

text \<open>Python's truth value of an object, as \<^verbatim>\<open>not x\<close> tests it.\<close>

fun truthy :: "json \<Rightarrow> bool" where
  "truthy JNull = False"
| "truthy (JBool b) = b"
| "truthy (JInt n) = (n \<noteq> 0)"
| "truthy (JStr s) = (s \<noteq> [])"
| "truthy (JArr xs) = (xs \<noteq> [])"
| "truthy (JObj m) = (m \<noteq> Map.empty)"

text \<open>\<^verbatim>\<open>d.get(k, default)\<close> and \<^verbatim>\<open>d[k]\<close>.\<close>

definition dict_get :: "dict \<Rightarrow> string \<Rightarrow> json \<Rightarrow> json" where
  "dict_get d k dflt = (case d k of None \<Rightarrow> dflt | Some v \<Rightarrow> v)"

definition dict_item :: "dict \<Rightarrow> string \<Rightarrow> error + json" where
  "dict_item d k = (case d k of None \<Rightarrow> Inl KeyError | Some v \<Rightarrow> Inr v)"


section \<open>Naive datetimes and timedeltas\<close>

record datetime =
  year :: int
  month :: int
  day :: int
  hour :: int
  minute :: int
  second :: int
  microsecond :: int

text \<open>\<^verbatim>\<open>datetime(y, m, d)\<close>: the time of day defaults to midnight.\<close>

definition datetime_ymd :: "int \<Rightarrow> int \<Rightarrow> int \<Rightarrow> datetime" where
  "datetime_ymd y m d =
     \<lparr>year = y, month = m, day = d, hour = 0, minute = 0, second = 0, microsecond = 0\<rparr>"

definition is_leap :: "int \<Rightarrow> bool" where
  "is_leap y \<longleftrightarrow> y mod 4 = 0 \<and> (y mod 100 \<noteq> 0 \<or> y mod 400 = 0)"

definition days_in_month :: "int \<Rightarrow> int \<Rightarrow> int" where
  "days_in_month y m =
     (if m = 2 then (if is_leap y then 29 else 28)
      else if m = 4 \<or> m = 6 \<or> m = 9 \<or> m = 11 then 30
      else 31)"

definition days_before_year :: "int \<Rightarrow> int" where
  "days_before_year y = (y - 1) * 365 + (y - 1) div 4 - (y - 1) div 100 + (y - 1) div 400"

text \<open>The days of the year before the first of month \<open>m\<close>, for \<open>m\<close> from 1 to 12.\<close>

definition days_before_month :: "int \<Rightarrow> int \<Rightarrow> int" where
  "days_before_month y m =
     [0, 31, 59, 90, 120, 151, 181, 212, 243, 273, 304, 334] ! nat (m - 1)
     + (if m > 2 \<and> is_leap y then 1 else 0)"

text \<open>The proleptic Gregorian ordinal of a date: 1 is 0001-01-01.\<close>

definition toordinal :: "datetime \<Rightarrow> int" where
  "toordinal t = days_before_year (year t) + days_before_month (year t) (month t) + day t"

definition MAXORDINAL :: int where
  "MAXORDINAL = 3652059"

definition usec_per_day :: int where
  "usec_per_day = 86400000000"

text \<open>
  A datetime as the number of microseconds since the start of ordinal day 0. Python
  compares two naive datetimes field by field, which is the order of these numbers.
\<close>

definition usec_of :: "datetime \<Rightarrow> int" where
  "usec_of t =
     (((toordinal t * 24 + hour t) * 60 + minute t) * 60 + second t) * 1000000 + microsecond t"

text \<open>A \<^verbatim>\<open>timedelta\<close> is its length in microseconds.\<close>

type_synonym timedelta = int

definition timedelta_days :: "int \<Rightarrow> timedelta" where
  "timedelta_days n = n * usec_per_day"

definition timedelta_weeks :: "int \<Rightarrow> timedelta" where
  "timedelta_weeks n = timedelta_days (7 * n)"

text \<open>
  \<^verbatim>\<open>datetime + timedelta\<close>: the sum, as a microsecond count, or \<^verbatim>\<open>OverflowError\<close> when
  its date falls outside the years 1 to 9999.
\<close>

definition datetime_add :: "datetime \<Rightarrow> timedelta \<Rightarrow> error + int" where
  "datetime_add t d =
     (let r = usec_of t + d in
      if 0 < r div usec_per_day \<and> r div usec_per_day \<le> MAXORDINAL then Inr r
      else Inl OverflowError)"

text \<open>Decimal digits, zero-padded printing and reading.\<close>

definition is_digit :: "char \<Rightarrow> bool" where
  "is_digit c \<longleftrightarrow> c \<in> set ''0123456789''"

primrec zpad :: "nat \<Rightarrow> nat \<Rightarrow> string" where
  "zpad 0 n = []"
| "zpad (Suc w) n = zpad w (n div 10) @ [''0123456789'' ! (n mod 10)]"

definition to_int :: "string \<Rightarrow> int" where
  "to_int s = foldl (\<lambda>a c. 10 * a + (of_char c - 48)) 0 s"

text \<open>
  \<^verbatim>\<open>datetime.isoformat()\<close>: \<^verbatim>\<open>YYYY-MM-DDTHH:MM:SS.ffffff\<close>, and without the fraction
  when the microsecond is 0.
\<close>

definition isoformat :: "datetime \<Rightarrow> string" where
  "isoformat t =
     zpad 4 (nat (year t)) @ ''-'' @ zpad 2 (nat (month t)) @ ''-'' @ zpad 2 (nat (day t))
     @ ''T'' @ zpad 2 (nat (hour t)) @ '':'' @ zpad 2 (nat (minute t)) @ '':''
     @ zpad 2 (nat (second t))
     @ (if microsecond t = 0 then [] else ''.'' @ zpad 6 (nat (microsecond t)))"


section \<open>Regular expressions\<close>

text \<open>
  The fragment of Python's \<^verbatim>\<open>re\<close> syntax that the module uses, with the backtracking
  semantics of \<^verbatim>\<open>re.match\<close>: alternatives are tried in priority order (an optional
  part is tried present first), and the first complete match gives the groups.
  \<open>Eos\<close> is \<^verbatim>\<open>$\<close>, which holds at the end of the string and just before a newline
  that ends the string. Strings are lists of 8-bit characters; on these \<^verbatim>\<open>\d\<close> is
  \<^verbatim>\<open>[0-9]\<close>.
\<close>

datatype rx =
    Eps
  | Chr char
  | Digit
  | OneOf "char list"
  | Seq rx rx
  | Opt rx
  | Grp nat rx
  | Eos

type_synonym groups = "nat \<Rightarrow> string option"

primrec rx_match ::
  "rx \<Rightarrow> string \<Rightarrow> groups \<Rightarrow> (string \<Rightarrow> groups \<Rightarrow> groups option) \<Rightarrow> groups option" where
  "rx_match Eps s g k = k s g"
| "rx_match (Chr c) s g k =
     (case s of [] \<Rightarrow> None | x # xs \<Rightarrow> if x = c then k xs g else None)"
| "rx_match Digit s g k =
     (case s of [] \<Rightarrow> None | x # xs \<Rightarrow> if is_digit x then k xs g else None)"
| "rx_match (OneOf cs) s g k =
     (case s of [] \<Rightarrow> None | x # xs \<Rightarrow> if x \<in> set cs then k xs g else None)"
| "rx_match (Seq a b) s g k = rx_match a s g (\<lambda>s' g'. rx_match b s' g' k)"
| "rx_match (Opt a) s g k =
     (case rx_match a s g k of Some r \<Rightarrow> Some r | None \<Rightarrow> k s g)"
| "rx_match (Grp i a) s g k =
     rx_match a s g (\<lambda>s' g'. k s' (g'(i \<mapsto> take (length s - length s') s)))"
| "rx_match Eos s g k = (if s = [] \<or> s = [CHR 0x0A] then k s g else None)"

text \<open>\<^verbatim>\<open>r{n}\<close>, and the greedy \<^verbatim>\<open>r{0,n}\<close> and \<^verbatim>\<open>r{m,n}\<close>.\<close>

primrec rx_times :: "nat \<Rightarrow> rx \<Rightarrow> rx" where
  "rx_times 0 r = Eps"
| "rx_times (Suc n) r = Seq r (rx_times n r)"

primrec rx_upto :: "nat \<Rightarrow> rx \<Rightarrow> rx" where
  "rx_upto 0 r = Eps"
| "rx_upto (Suc n) r = Opt (Seq r (rx_upto n r))"

definition rx_range :: "nat \<Rightarrow> nat \<Rightarrow> rx \<Rightarrow> rx" where
  "rx_range m n r = Seq (rx_times m r) (rx_upto (n - m) r)"

definition seqs :: "rx list \<Rightarrow> rx" where
  "seqs rs = foldr Seq rs Eps"

text \<open>\<^verbatim>\<open>pattern.match(s)\<close>: the groups of the match at the start of \<open>s\<close>, if there is one.\<close>

definition re_match :: "rx \<Rightarrow> string \<Rightarrow> groups option" where
  "re_match p s = rx_match p s (\<lambda>i. None) (\<lambda>s' g. Some g)"


text \<open>
  The matches of a pattern, stated without a search order: \<open>(s', g') \<in> runs r s g\<close>
  when \<open>r\<close> can consume a prefix of \<open>s\<close> and leave \<open>s'\<close>, turning the groups
  \<open>g\<close> into \<open>g'\<close>. The matcher is proved sound and complete for it below.
\<close>

primrec runs :: "rx \<Rightarrow> string \<Rightarrow> groups \<Rightarrow> (string \<times> groups) set" where
  "runs Eps s g = {(s, g)}"
| "runs (Chr c) s g = {(s', g'). g' = g \<and> s = c # s'}"
| "runs Digit s g = {(s', g'). g' = g \<and> (\<exists>c. is_digit c \<and> s = c # s')}"
| "runs (OneOf cs) s g = {(s', g'). g' = g \<and> (\<exists>c. c \<in> set cs \<and> s = c # s')}"
| "runs (Seq a b) s g = (\<Union>(s1, g1) \<in> runs a s g. runs b s1 g1)"
| "runs (Opt a) s g = runs a s g \<union> {(s, g)}"
| "runs (Grp i a) s g =
     (\<lambda>(s', g'). (s', g'(i \<mapsto> take (length s - length s') s))) ` runs a s g"
| "runs Eos s g = (if s = [] \<or> s = [CHR 0x0A] then {(s, g)} else {})"


section \<open>Timestamps\<close>

text \<open>
  \<^verbatim>\<open>ISO8601_PAT = re.compile(r"^(\d{4}-\d{2}-\d{2}T\d{2}:\d{2}:\d{2})(\.\d{1,6})?Z?([\+\-]\d{2}:?\d{2})?$")\<close>
\<close>

definition STAMP :: rx where
  "STAMP = seqs [rx_times 4 Digit, Chr CHR ''-'', rx_times 2 Digit, Chr CHR ''-'',
                 rx_times 2 Digit, Chr CHR ''T'', rx_times 2 Digit, Chr CHR '':'',
                 rx_times 2 Digit, Chr CHR '':'', rx_times 2 Digit]"

definition FRACTION :: rx where
  "FRACTION = seqs [Chr CHR ''.'', rx_range 1 6 Digit]"

definition OFFSET :: rx where
  "OFFSET = seqs [OneOf ''+-'', rx_times 2 Digit, Opt (Chr CHR '':''), rx_times 2 Digit]"

definition ISO8601_PAT :: rx where
  "ISO8601_PAT = seqs [Grp 1 STAMP, Opt (Grp 2 FRACTION), Opt (Chr CHR ''Z''),
                       Opt (Grp 3 OFFSET), Eos]"

text \<open>
  \<^verbatim>\<open>datetime.strptime(x, "%Y-%m-%dT%H:%M:%S.%f")\<close> of the standard library, for the
  arguments \<open>parse_datetime\<close> gives it: four, two, two, two, two and two digits between
  the separators, then a point and one to six digits. On these it raises
  \<^verbatim>\<open>ValueError\<close> unless month, day, hour, minute and second are in range for the
  calendar and the year is at least 1; the fraction is padded with zeros on the right to
  six digits.
\<close>

definition stamp_shape :: "string \<Rightarrow> bool" where
  "stamp_shape x \<longleftrightarrow>
     length x = 19 \<and>
     list_all is_digit (take 4 x) \<and> x ! 4 = CHR ''-'' \<and>
     list_all is_digit (take 2 (drop 5 x)) \<and> x ! 7 = CHR ''-'' \<and>
     list_all is_digit (take 2 (drop 8 x)) \<and> x ! 10 = CHR ''T'' \<and>
     list_all is_digit (take 2 (drop 11 x)) \<and> x ! 13 = CHR '':'' \<and>
     list_all is_digit (take 2 (drop 14 x)) \<and> x ! 16 = CHR '':'' \<and>
     list_all is_digit (take 2 (drop 17 x))"

definition frac_shape :: "string \<Rightarrow> bool" where
  "frac_shape f \<longleftrightarrow>
     2 \<le> length f \<and> length f \<le> 7 \<and> hd f = CHR ''.'' \<and> list_all is_digit (tl f)"

definition fields_of :: "string \<Rightarrow> datetime" where
  "fields_of x =
     \<lparr>year = to_int (take 4 x), month = to_int (take 2 (drop 5 x)),
      day = to_int (take 2 (drop 8 x)), hour = to_int (take 2 (drop 11 x)),
      minute = to_int (take 2 (drop 14 x)), second = to_int (take 2 (drop 17 x)),
      microsecond = to_int (drop 20 x @ replicate (6 - length (drop 20 x)) CHR ''0'')\<rparr>"

definition calendar_ok :: "datetime \<Rightarrow> bool" where
  "calendar_ok t \<longleftrightarrow>
     1 \<le> year t \<and> 1 \<le> month t \<and> month t \<le> 12 \<and>
     1 \<le> day t \<and> day t \<le> days_in_month (year t) (month t) \<and>
     hour t \<le> 23 \<and> minute t \<le> 59 \<and> second t \<le> 59"

definition strptime_ISO8601 :: "string \<Rightarrow> error + datetime" where
  "strptime_ISO8601 x =
     (if stamp_shape (take 19 x) \<and> frac_shape (drop 19 x) \<and> calendar_ok (fields_of x)
      then Inr (fields_of x)
      else Inl ValueError)"

text \<open>The datetimes that Python can hold: a date of the calendar up to year 9999 and a time of day.\<close>

definition valid_datetime :: "datetime \<Rightarrow> bool" where
  "valid_datetime t \<longleftrightarrow>
     calendar_ok t \<and> year t \<le> 9999 \<and> 0 \<le> hour t \<and> 0 \<le> minute t \<and> 0 \<le> second t \<and>
     0 \<le> microsecond t \<and> microsecond t \<le> 999999"

text \<open>
  The shapes of the optional parts that can follow the stamp: a UTC offset is a sign, two
  digits, an optional colon and two digits. \<open>iso8601_parts\<close> says that five strings
  are a stamp, an optional fraction, an optional \<open>Z\<close>, an optional offset and an
  optional final newline.
\<close>

definition offset_shape :: "string \<Rightarrow> bool" where
  "offset_shape x \<longleftrightarrow>
     x \<noteq> [] \<and> hd x \<in> set ''+-'' \<and> list_all is_digit (take 2 (tl x)) \<and>
     (length x = 5 \<and> list_all is_digit (drop 3 x) \<or>
      length x = 6 \<and> x ! 3 = CHR '':'' \<and> list_all is_digit (drop 4 x))"

definition iso8601_parts :: "string \<Rightarrow> string \<Rightarrow> string \<Rightarrow> string \<Rightarrow> string \<Rightarrow> bool" where
  "iso8601_parts stamp frac z off nl \<longleftrightarrow>
     stamp_shape stamp \<and> (frac = [] \<or> frac_shape frac) \<and> (z = [] \<or> z = ''Z'') \<and>
     (off = [] \<or> offset_shape off) \<and> (nl = [] \<or> nl = [CHR 0x0A])"

text \<open>
  \<^verbatim>\<open>parse_datetime\<close>. Group 3, the offset, is read and dropped. A group that did not
  take part in the match is \<^verbatim>\<open>None\<close>.
\<close>

definition parse_datetime :: "string \<Rightarrow> error + datetime" where
  "parse_datetime s =
     (case re_match ISO8601_PAT s of
        None \<Rightarrow> Inl ValueError
      | Some m \<Rightarrow>
          (let ms = (case m 2 of None \<Rightarrow> ''.0'' | Some f \<Rightarrow> if f = [] then ''.0'' else f)
           in case m 1 of
                None \<Rightarrow> Inl TypeError
              | Some notz \<Rightarrow> strptime_ISO8601 (notz @ ms)))"


section \<open>Platform directories and file names\<close>

text \<open>
  What the module reads from its process: \<^verbatim>\<open>sys.platform\<close>, \<^verbatim>\<open>os.environ\<close>, and the
  platform's \<^verbatim>\<open>os.path.expanduser\<close> and \<^verbatim>\<open>os.path.join\<close>.
\<close>

datatype platform = Win32 | Darwin | Other

record env =
  platform :: platform
  environ :: "string \<Rightarrow> string option"
  expanduser :: "string \<Rightarrow> string"
  join :: "string list \<Rightarrow> string"

text \<open>\<^verbatim>\<open>os.environ.get(k, None) or dflt\<close>: an unset or empty variable gives the default.\<close>

definition environ_or :: "env \<Rightarrow> string \<Rightarrow> string \<Rightarrow> string" where
  "environ_or e k dflt = (case environ e k of None \<Rightarrow> dflt | Some v \<Rightarrow> if v = [] then dflt else v)"

definition data_dir :: "env \<Rightarrow> string option" where
  "data_dir e =
     (case platform e of
        Win32 \<Rightarrow> environ e ''APPDATA''
      | Darwin \<Rightarrow> Some (expanduser e ''~/Library/Application Support'')
      | Other \<Rightarrow> Some (environ_or e ''XDG_DATA_HOME'' (expanduser e ''~/.local/share'')))"

definition config_dir :: "env \<Rightarrow> string option" where
  "config_dir e =
     (case platform e of
        Win32 \<Rightarrow> environ e ''APPDATA''
      | Darwin \<Rightarrow> Some (expanduser e ''~/Library/Preferences'')
      | Other \<Rightarrow> Some (environ_or e ''XDG_CONFIG_HOME'' (expanduser e ''~/.config'')))"

text \<open>\<^verbatim>\<open>s.split(c)\<close> for a one-character separator; the result is never empty.\<close>

fun split_on :: "char \<Rightarrow> string \<Rightarrow> string list" where
  "split_on c [] = [[]]"
| "split_on c (x # xs) =
     (if x = c then [] # split_on c xs
      else (case split_on c xs of [] \<Rightarrow> [[x]] | y # ys \<Rightarrow> (x # y) # ys))"

definition config_dirs :: "env \<Rightarrow> string option list" where
  "config_dirs e =
     (case platform e of
        Other \<Rightarrow>
          [config_dir e] @
          map Some
            (let parts = split_on CHR '':''
                   (case environ e ''XDG_CONFIG_HOME'' of None \<Rightarrow> [] | Some v \<Rightarrow> v)
             in if parts \<noteq> [] then parts else [''/etc/xdg''])
      | _ \<Rightarrow> [config_dir e])"

text \<open>
  The argument of the name-taking helpers is a string, or the compiled pattern object
  \<^verbatim>\<open>_appname_pat\<close> itself, which \<open>is_configured\<close> passes. \<open>percent_s\<close> is \<^verbatim>\<open>'%s' % x\<close>.
\<close>

datatype arg = Str string | Appname_pat

definition percent_s :: "arg \<Rightarrow> string" where
  "percent_s a =
     (case a of
        Str s \<Rightarrow> s
      | Appname_pat \<Rightarrow>
          ''re.compile('' @ [CHR 0x27] @ ''^[a-zA-Z][a-zA-Z0-9_.]*$'' @ [CHR 0x27] @ '')'')"

text \<open>
  \<^verbatim>\<open>_check_appname\<close>. Its test is \<^verbatim>\<open>_appname_pat.matches(appname)\<close>. A compiled
  pattern has the methods \<^verbatim>\<open>match\<close>, \<^verbatim>\<open>fullmatch\<close>, \<^verbatim>\<open>search\<close> and others, and no
  attribute \<^verbatim>\<open>matches\<close>: looking the attribute up raises \<^verbatim>\<open>AttributeError\<close> before
  the argument is looked at, so neither the \<^verbatim>\<open>raise ValueError\<close> nor the normal return
  is ever reached.
\<close>

definition check_appname :: "arg \<Rightarrow> error + unit" where
  "check_appname appname = Inl AttributeError"

text \<open>\<^verbatim>\<open>os.path.join(d, 'etph', '%s.json' % appname)\<close>; a directory \<^verbatim>\<open>None\<close> is a \<^verbatim>\<open>TypeError\<close>.\<close>

definition etph_path :: "env \<Rightarrow> arg \<Rightarrow> string option \<Rightarrow> error + string" where
  "etph_path e appname d =
     (case d of
        None \<Rightarrow> Inl TypeError
      | Some dir \<Rightarrow> Inr (join e [dir, ''etph'', percent_s appname @ ''.json'']))"

text \<open>The list comprehension of \<^verbatim>\<open>_config_file\<close>: the first failing element aborts it.\<close>

fun etph_paths :: "env \<Rightarrow> arg \<Rightarrow> string option list \<Rightarrow> error + string list" where
  "etph_paths e appname [] = Inr []"
| "etph_paths e appname (d # ds) =
     (case etph_path e appname d of
        Inl x \<Rightarrow> Inl x
      | Inr p \<Rightarrow> (case etph_paths e appname ds of Inl x \<Rightarrow> Inl x | Inr ps \<Rightarrow> Inr (p # ps)))"

text \<open>\<^verbatim>\<open>_config_file(appname, search=True)\<close> and \<^verbatim>\<open>_config_file(appname)\<close>.\<close>

definition config_file_search :: "env \<Rightarrow> arg \<Rightarrow> error + string list" where
  "config_file_search e appname =
     (case check_appname appname of
        Inl x \<Rightarrow> Inl x
      | Inr _ \<Rightarrow> etph_paths e appname (config_dirs e))"

definition config_file :: "env \<Rightarrow> arg \<Rightarrow> error + string" where
  "config_file e appname =
     (case check_appname appname of
        Inl x \<Rightarrow> Inl x
      | Inr _ \<Rightarrow> etph_path e appname (config_dir e))"

definition data_file :: "env \<Rightarrow> arg \<Rightarrow> error + string" where
  "data_file e appname =
     (case check_appname appname of
        Inl x \<Rightarrow> Inl x
      | Inr _ \<Rightarrow> etph_path e appname (data_dir e))"


section \<open>The world: files, clock, identifiers and a trace of what was done\<close>

text \<open>
  \<open>fs w p\<close> is what \<^verbatim>\<open>open(p)\<close> followed by \<^verbatim>\<open>json.load\<close> gives: \<^verbatim>\<open>open\<close> raises
  \<^verbatim>\<open>OSError\<close> with an \<^verbatim>\<open>errno\<close> (\<open>ENOENT\<close> for a file that does not exist), or the
  text is not JSON, or it is a JSON object. Files holding another JSON value are outside
  the model. \<open>wr_err w p\<close> is the \<^verbatim>\<open>errno\<close> with which \<^verbatim>\<open>open(p, 'w')\<close> fails, if it
  does. \<open>clock\<close> is what \<^verbatim>\<open>datetime.now()\<close> returns and \<open>uuid4\<close> what
  \<^verbatim>\<open>str(uuid.uuid4())\<close> returns during the call. \<open>trace\<close> records, in order, every
  file access attempted and every call of \<^verbatim>\<open>_send\<close>.
\<close>

datatype content = Fails nat | Garbage | Object dict

datatype event =
    Ev_open_r string
  | Ev_open_w string
  | Ev_dump string dict
  | Ev_isfile string
  | Ev_call_send dict json

record world =
  fs :: "string \<Rightarrow> content"
  wr_err :: "string \<Rightarrow> nat option"
  isfile :: "string \<Rightarrow> bool"
  clock :: datetime
  uuid4 :: string
  trace :: "event list"

type_synonym 'a result = "(error + 'a) \<times> world"

text \<open>\<^verbatim>\<open>with open(p) as f: json.load(f)\<close>\<close>

definition open_load :: "string \<Rightarrow> world \<Rightarrow> content \<times> world" where
  "open_load p w = (fs w p, w\<lparr>trace := trace w @ [Ev_open_r p]\<rparr>)"

text \<open>\<^verbatim>\<open>with open(p, 'w') as f: json.dump(d, f, indent=2)\<close>\<close>

definition open_dump :: "string \<Rightarrow> dict \<Rightarrow> world \<Rightarrow> unit result" where
  "open_dump p d w =
     (case wr_err w p of
        Some n \<Rightarrow> (Inl (OSError n), w\<lparr>trace := trace w @ [Ev_open_w p]\<rparr>)
      | None \<Rightarrow>
          (Inr (), w\<lparr>fs := (fs w)(p := Object d), isfile := (isfile w)(p := True),
                     trace := trace w @ [Ev_open_w p, Ev_dump p d]\<rparr>))"


section \<open>The operations\<close>

text \<open>
  \<^verbatim>\<open>_send(data, destination, user_id)\<close>. A call that leaves \<open>user_id\<close> out is a
  \<^verbatim>\<open>TypeError\<close>. The body serialises \<^verbatim>\<open>json.dumps(bytes)\<close>, the type object and not
  the data, which is a \<^verbatim>\<open>TypeError\<close> as well, so \<^verbatim>\<open>urlopen\<close> is never reached.
\<close>

definition send :: "dict \<Rightarrow> json \<Rightarrow> json option \<Rightarrow> world \<Rightarrow> unit result" where
  "send data destination user_id w =
     (case user_id of
        None \<Rightarrow> (Inl TypeError, w)
      | Some u \<Rightarrow> (Inl TypeError, w))"

text \<open>The loop of \<open>trigger\<close> over the config files, lines 85 to 91, from the file list on.\<close>

fun load_cfg :: "string list \<Rightarrow> dict \<Rightarrow> world \<Rightarrow> dict result" where
  "load_cfg [] cfg w = (Inr cfg, w)"
| "load_cfg (filename # rest) cfg w =
     (let (f, w') = open_load filename w in
      case f of
        Fails n \<Rightarrow> if n \<noteq> ENOENT then (Inl (OSError n), w') else load_cfg rest cfg w'
      | Garbage \<Rightarrow> (Inl ValueError, w')
      | Object d \<Rightarrow> load_cfg rest (cfg ++ d) w')"

text \<open>
  Lines 97 to 103. The chain has no \<^verbatim>\<open>else\<close>: for any other value the local variable
  \<^verbatim>\<open>send_interval\<close> stays unbound, which is \<open>None\<close> here.
\<close>

definition send_interval :: "dict \<Rightarrow> timedelta option" where
  "send_interval cfg =
     (let freq = dict_get cfg ''frequency'' (JStr ''weekly'') in
      if freq = JStr ''daily'' then Some (timedelta_days 1)
      else if freq = JStr ''weekly'' then Some (timedelta_weeks 7)
      else if freq = JStr ''monthly'' then Some (timedelta_days 28)
      else None)"

text \<open>
  Lines 108 to 120: the last submission, or the sentinel and a new identifier. The result
  is \<^verbatim>\<open>last_sent_at\<close> and \<^verbatim>\<open>data\<close> with its \<^verbatim>\<open>user_id\<close> set.
\<close>

definition read_last :: "string \<Rightarrow> dict \<Rightarrow> world \<Rightarrow> (datetime \<times> dict) result" where
  "read_last dfile data w =
     (let (f, w') = open_load dfile w in
      case f of
        Fails n \<Rightarrow>
          if n \<noteq> ENOENT then (Inl (OSError n), w')
          else (Inr (datetime_ymd 2000 1 1, data(''user_id'' \<mapsto> JStr (uuid4 w'))), w')
      | Garbage \<Rightarrow> (Inl ValueError, w')
      | Object last_submission \<Rightarrow>
          (case dict_item last_submission ''timestamp'' of
             Inl x \<Rightarrow> (Inl x, w')
           | Inr ts \<Rightarrow>
               (case (case ts of JStr s \<Rightarrow> parse_datetime s | _ \<Rightarrow> Inl TypeError) of
                  Inl x \<Rightarrow> (Inl x, w')
                | Inr last_sent_at \<Rightarrow>
                    (case dict_item last_submission ''user_id'' of
                       Inl x \<Rightarrow> (Inl x, w')
                     | Inr uid \<Rightarrow> (Inr (last_sent_at, data(''user_id'' \<mapsto> uid)), w')))))"

text \<open>The record that line 128 builds.\<close>

definition submission_record :: "datetime \<Rightarrow> json \<Rightarrow> dict \<Rightarrow> dict" where
  "submission_record now destination data =
     [''timestamp'' \<mapsto> JStr (isoformat now), ''destination'' \<mapsto> destination,
      ''data'' \<mapsto> JObj data]"

text \<open>Lines 127 to 133: write the state file, then call \<^verbatim>\<open>_send(data, destination)\<close>.\<close>

definition persist_and_send :: "string \<Rightarrow> datetime \<Rightarrow> json \<Rightarrow> dict \<Rightarrow> world \<Rightarrow> unit result" where
  "persist_and_send dfile now destination data w =
     (case open_dump dfile (submission_record now destination data) w of
        (Inl x, w') \<Rightarrow> (Inl x, w')
      | (Inr _, w') \<Rightarrow>
          send data destination None (w'\<lparr>trace := trace w' @ [Ev_call_send data destination]\<rparr>))"

text \<open>Lines 122 to 133: the gate, then the submission.\<close>

definition gate_and_submit ::
  "timedelta option \<Rightarrow> json \<Rightarrow> string \<Rightarrow> datetime \<Rightarrow> dict \<Rightarrow> world \<Rightarrow> unit result" where
  "gate_and_submit interval destination dfile last_sent_at data w =
     (let now = clock w in
      case interval of
        None \<Rightarrow> (Inl UnboundLocalError, w)
      | Some iv \<Rightarrow>
          (case datetime_add last_sent_at iv of
             Inl x \<Rightarrow> (Inl x, w)
           | Inr due \<Rightarrow>
               if due > usec_of now then (Inr (), w)
               else persist_and_send dfile now destination data w))"

text \<open>
  Lines 93 to 133: \<open>trigger\<close> from the merged config on. \<open>data_file_r\<close> is what
  \<^verbatim>\<open>_data_file(appname)\<close> on line 107 returns or raises.
\<close>

definition trigger_cfg :: "dict \<Rightarrow> error + string \<Rightarrow> dict \<Rightarrow> world \<Rightarrow> unit result" where
  "trigger_cfg cfg data_file_r data w =
     (if \<not> truthy (dict_get cfg ''enabled'' (JBool False)) then (Inr (), w)
      else
        let interval = send_interval cfg in
        case dict_item cfg ''destination'' of
          Inl x \<Rightarrow> (Inl x, w)
        | Inr destination \<Rightarrow>
            (case data_file_r of
               Inl x \<Rightarrow> (Inl x, w)
             | Inr dfile \<Rightarrow>
                 (case read_last dfile data w of
                    (Inl x, w') \<Rightarrow> (Inl x, w')
                  | (Inr (last_sent_at, data'), w') \<Rightarrow>
                      gate_and_submit interval destination dfile last_sent_at data' w')))"

definition trigger :: "env \<Rightarrow> string \<Rightarrow> dict \<Rightarrow> world \<Rightarrow> unit result" where
  "trigger e appname data w =
     (case config_file_search e (Str appname) of
        Inl x \<Rightarrow> (Inl x, w)
      | Inr filenames \<Rightarrow>
          (case load_cfg (rev filenames) Map.empty w of
             (Inl x, w') \<Rightarrow> (Inl x, w')
           | (Inr cfg, w') \<Rightarrow> trigger_cfg cfg (data_file e (Str appname)) data w'))"

definition configure ::
  "env \<Rightarrow> string \<Rightarrow> bool \<Rightarrow> string option \<Rightarrow> string \<Rightarrow> world \<Rightarrow> unit result" where
  "configure e appname user_permission destination frequency w =
     (if frequency \<notin> {''daily'', ''weekly'', ''monthly''} then (Inl AssertionError, w)
      else
        let d = [''enabled'' \<mapsto> JBool user_permission, ''frequency'' \<mapsto> JStr frequency];
            d' = (case destination of None \<Rightarrow> d | Some u \<Rightarrow> d(''destination'' \<mapsto> JStr u))
        in case config_file e (Str appname) of
             Inl x \<Rightarrow> (Inl x, w)
           | Inr p \<Rightarrow> open_dump p d' w)"

text \<open>Lines 180 to 184 of \<open>is_configured\<close>, from the file name on.\<close>

definition enabled_in_file :: "string \<Rightarrow> world \<Rightarrow> bool result" where
  "enabled_in_file cfgfile w =
     (let w1 = w\<lparr>trace := trace w @ [Ev_isfile cfgfile]\<rparr> in
      if \<not> isfile w cfgfile then (Inr False, w1)
      else
        let (f, w2) = open_load cfgfile w1 in
        case f of
          Fails n \<Rightarrow> (Inl (OSError n), w2)
        | Garbage \<Rightarrow> (Inl ValueError, w2)
        | Object d \<Rightarrow> (Inr (d ''enabled'' \<noteq> None), w2))"

text \<open>\<open>is_configured\<close> passes \<^verbatim>\<open>_appname_pat\<close>, not its argument, to \<^verbatim>\<open>_config_file\<close>.\<close>

definition is_configured :: "env \<Rightarrow> string \<Rightarrow> world \<Rightarrow> bool result" where
  "is_configured e appname w =
     (case config_file e Appname_pat of
        Inl x \<Rightarrow> (Inl x, w)
      | Inr cfgfile \<Rightarrow> enabled_in_file cfgfile w)"


section \<open>A sample process and sample worlds\<close>

text \<open>\<^verbatim>\<open>posixpath.join\<close>: a component that starts with a slash replaces what came before.\<close>

definition join2 :: "string \<Rightarrow> string \<Rightarrow> string" where
  "join2 a b =
     (if b \<noteq> [] \<and> hd b = CHR ''/'' then b
      else if a = [] \<or> last a = CHR ''/'' then a @ b
      else a @ ''/'' @ b)"

definition posix_join :: "string list \<Rightarrow> string" where
  "posix_join ps = (case ps of [] \<Rightarrow> [] | a # bs \<Rightarrow> foldl join2 a bs)"

text \<open>A Linux process with no XDG variable set and the home directory \<^verbatim>\<open>/home/user\<close>.\<close>

definition env_linux :: env where
  "env_linux =
     \<lparr>platform = Other, environ = Map.empty,
      expanduser = (\<lambda>p. ''/home/user'' @ drop 1 p), join = posix_join\<rparr>"

definition state_path :: string where
  "state_path = ''/home/user/.local/share/etph/ipython.json''"

definition user_path :: string where
  "user_path = ''/home/user/.config/etph/ipython.json''"

definition system_path :: string where
  "system_path = ''/etc/xdg/etph/ipython.json''"

text \<open>A world with no file at all, every path writable, on 2024-05-17 at 10:30:00.000250.\<close>

definition world0 :: world where
  "world0 =
     \<lparr>fs = (\<lambda>p. Fails ENOENT), wr_err = (\<lambda>p. None), isfile = (\<lambda>p. False),
      clock = \<lparr>year = 2024, month = 5, day = 17, hour = 10, minute = 30, second = 0,
               microsecond = 250\<rparr>,
      uuid4 = ''123e4567-e89b-42d3-a456-426614174000'', trace = []\<rparr>"

definition url :: json where
  "url = JStr ''https://stats.example.org/submit''"

definition cfg_weekly :: dict where
  "cfg_weekly = [''enabled'' \<mapsto> JBool True, ''frequency'' \<mapsto> JStr ''weekly'', ''destination'' \<mapsto> url]"

definition cfg_hourly :: dict where
  "cfg_hourly = [''enabled'' \<mapsto> JBool True, ''frequency'' \<mapsto> JStr ''hourly'', ''destination'' \<mapsto> url]"


text \<open>
  The same process with \<^verbatim>\<open>XDG_CONFIG_HOME\<close> set to a user directory and a system
  directory, and the three config files the search then lists.
\<close>

definition env_xdg :: env where
  "env_xdg = env_linux\<lparr>environ := [''XDG_CONFIG_HOME'' \<mapsto> ''/home/user/.config:/etc/xdg'']\<rparr>"

definition both_path :: string where
  "both_path = ''/home/user/.config:/etc/xdg/etph/ipython.json''"

definition world_cfg :: world where
  "world_cfg = world0\<lparr>fs := (\<lambda>p. Fails ENOENT)
      (system_path := Object [''enabled'' \<mapsto> JBool True, ''frequency'' \<mapsto> JStr ''weekly''],
       user_path := Object [''frequency'' \<mapsto> JStr ''daily''])\<rparr>"

text \<open>
  A Windows process; \<open>nt_join\<close> is \<^verbatim>\<open>ntpath.join\<close> on components without drive or
  separator.
\<close>

definition nt_join :: "string list \<Rightarrow> string" where
  "nt_join ps = (case ps of [] \<Rightarrow> [] | a # bs \<Rightarrow> foldl (\<lambda>x y. x @ [CHR 0x5C] @ y) a bs)"

definition env_win :: env where
  "env_win =
     \<lparr>platform = Win32, environ = [''APPDATA'' \<mapsto> ''C:/Users/u/AppData/Roaming''],
      expanduser = (\<lambda>p. ''C:/Users/u'' @ drop 1 p), join = nt_join\<rparr>"

text \<open>No path can be opened for writing (\<^verbatim>\<open>EACCES\<close>).\<close>

definition world_ro :: world where
  "world_ro = world0\<lparr>wr_err := (\<lambda>p. Some 13)\<rparr>"

text \<open>The clock of a machine that starts at the Unix epoch.\<close>

definition world_epoch :: world where
  "world_epoch = world0\<lparr>clock := \<lparr>year = 1970, month = 1, day = 1, hour = 0, minute = 0,
      second = 5, microsecond = 0\<rparr>\<rparr>"

definition payload :: dict where
  "payload = [''sessions'' \<mapsto> JInt 3]"

definition later :: datetime where
  "later = \<lparr>year = 2024, month = 9, day = 1, hour = 8, minute = 0, second = 0, microsecond = 0\<rparr>"

text \<open>A state file written by hand, with its \<open>user_id\<close> at the top level.\<close>

definition old_record :: dict where
  "old_record = [''timestamp'' \<mapsto> JStr ''2024-05-01T09:00:00'', ''user_id'' \<mapsto> JStr ''u-17'',
                 ''destination'' \<mapsto> url]"

definition world_old :: world where
  "world_old = world0\<lparr>fs := (fs world0)(state_path := Object old_record)\<rparr>"


section \<open>The merged config, stated over the search order\<close>

text \<open>
  The objects held by the files of a list that exist, in the order of the list, and the
  value the first of them that has a key gives it.
\<close>

definition objects :: "world \<Rightarrow> string list \<Rightarrow> dict list" where
  "objects w ps = concat (map (\<lambda>p. case fs w p of Object d \<Rightarrow> [d] | _ \<Rightarrow> []) ps)"

fun first_def :: "dict list \<Rightarrow> string \<Rightarrow> json option" where
  "first_def [] k = None"
| "first_def (d # ds) k = (case d k of Some v \<Rightarrow> Some v | None \<Rightarrow> first_def ds k)"


section \<open>The name check\<close>

lemma config_file_search_fails: "config_file_search e a = Inl AttributeError"
  by (simp add: config_file_search_def check_appname_def)

lemma config_file_fails: "config_file e a = Inl AttributeError"
  by (simp add: config_file_def check_appname_def)

text \<open>
  C1. For every application name \<open>_check_appname\<close> raises \<open>AttributeError\<close>, and so
  \<open>trigger\<close>, \<open>configure\<close> and \<open>is_configured\<close> fail on every input, leaving the world
  as it was: no file is opened and \<open>_send\<close> is not called.
\<close>

theorem name_check_always_fails:
  "check_appname a = Inl AttributeError \<and>
   trigger e appname data w = (Inl AttributeError, w) \<and>
   configure e appname perm dest freq w =
     (Inl (if freq \<in> {''daily'', ''weekly'', ''monthly''} then AttributeError
           else AssertionError), w) \<and>
   is_configured e appname w = (Inl AttributeError, w)"
  by (simp add: check_appname_def trigger_def configure_def is_configured_def
      config_file_search_fails config_file_fails)

theorem name_check_always_fails_witness:
  "check_appname (Str ''ipython'') = Inl AttributeError \<and>
   trigger env_linux ''ipython'' Map.empty world0 = (Inl AttributeError, world0) \<and>
   configure env_linux ''ipython'' True None ''weekly'' world0 = (Inl AttributeError, world0) \<and>
   configure env_linux ''ipython'' True None ''yearly'' world0 = (Inl AssertionError, world0) \<and>
   is_configured env_linux ''ipython'' world0 = (Inl AttributeError, world0)"
  using name_check_always_fails [where a = "Str ''ipython''" and e = env_linux
      and appname = "''ipython''" and data = Map.empty and w = world0 and perm = True
      and dest = None and freq = "''weekly''"]
    name_check_always_fails [where a = "Str ''ipython''" and e = env_linux
      and appname = "''ipython''" and data = Map.empty and w = world0 and perm = True
      and dest = None and freq = "''yearly''"]
  by simp

text \<open>
  C6. A name with path separators and a leading dot is refused, but with
  \<open>AttributeError\<close>, the same as every valid name, and not with the \<open>ValueError\<close>
  that \<open>_check_appname\<close> goes on to raise for a name outside its pattern. No file is
  touched.
\<close>

theorem bad_name_raises_AttributeError:
  "check_appname (Str ''../.ssh/id_rsa'') = Inl AttributeError \<and>
   check_appname (Str ''../.ssh/id_rsa'') \<noteq> Inl ValueError \<and>
   trigger env_linux ''../.ssh/id_rsa'' Map.empty world0 = (Inl AttributeError, world0)"
  by (simp add: check_appname_def trigger_def config_file_search_fails)

text \<open>
  C7. With no config file anywhere, \<open>is_configured\<close> raises \<open>AttributeError\<close> where
  its docstring has it return \<open>False\<close>; the block that reads the file would return
  \<open>False\<close> there, but it is never reached.
\<close>

theorem is_configured_raises:
  "is_configured env_linux ''ipython'' world0 = (Inl AttributeError, world0) \<and>
   fst (enabled_in_file user_path world0) = Inr False"
  by (simp add: is_configured_def config_file_fails enabled_in_file_def world0_def)


section \<open>The send interval\<close>

text \<open>
  C3. For the frequency \<open>weekly\<close> (also the default when the key is absent) the
  interval is \<^verbatim>\<open>timedelta(weeks=7)\<close>, 49 days and not 7.
\<close>

theorem weekly_interval_is_49_days:
  "send_interval cfg_weekly = Some (timedelta_days 49) \<and>
   send_interval cfg_weekly \<noteq> Some (timedelta_days 7) \<and>
   send_interval [''enabled'' \<mapsto> JBool True] = Some (timedelta_days 49)"
  by (simp add: send_interval_def cfg_weekly_def dict_get_def timedelta_weeks_def
      timedelta_days_def usec_per_day_def)


section \<open>Evaluating dates\<close>

lemma zpad_numeral:
  "zpad (numeral k) n = zpad (pred_numeral k) (n div 10) @ [''0123456789'' ! (n mod 10)]"
  by (metis numeral_eq_Suc zpad.simps(2))

lemma usec_sentinel: "usec_of (datetime_ymd 2000 1 1) = 63082368000000000"
  by (simp add: usec_of_def datetime_ymd_def toordinal_def days_before_year_def
      days_before_month_def)

lemma usec_world0: "usec_of (clock world0) = 63851625000000250"
  by (simp add: usec_of_def world0_def toordinal_def days_before_year_def days_before_month_def
      is_leap_def)

lemma isoformat_world0: "isoformat (clock world0) = ''2024-05-17T10:30:00.000250''"
  by (simp add: isoformat_def world0_def zpad_numeral)

lemma parse_world0:
  "parse_datetime ''2024-05-17T10:30:00.000250'' =
     Inr \<lparr>year = 2024, month = 5, day = 17, hour = 10, minute = 30, second = 0,
           microsecond = 250\<rparr>"
  by code_simp

lemma sentinel_plus_7_weeks:
  "datetime_add (datetime_ymd 2000 1 1) (timedelta_weeks 7) = Inr 63086601600000000"
  by (simp add: datetime_add_def usec_sentinel timedelta_weeks_def timedelta_days_def
      usec_per_day_def MAXORDINAL_def)

lemma send_interval_cases:
  "send_interval cfg = Some iv \<Longrightarrow>
     iv = timedelta_days 1 \<or> iv = timedelta_days 49 \<or> iv = timedelta_days 28"
  by (auto simp: send_interval_def timedelta_weeks_def Let_def split: if_splits)

lemma sentinel_add:
  "iv = timedelta_days 1 \<or> iv = timedelta_days 49 \<or> iv = timedelta_days 28 \<Longrightarrow>
   datetime_add (datetime_ymd 2000 1 1) iv = Inr (usec_of (datetime_ymd 2000 1 1) + iv)"
  by (auto simp: datetime_add_def usec_sentinel timedelta_days_def usec_per_day_def
      MAXORDINAL_def)


section \<open>Merging the config files\<close>

lemma objects_trace [simp]: "objects (w\<lparr>trace := t\<rparr>) ps = objects w ps"
  by (simp add: objects_def)

lemma objects_Cons:
  "objects w (p # ps) = (case fs w p of Object d \<Rightarrow> [d] | _ \<Rightarrow> []) @ objects w ps"
  by (simp add: objects_def)

lemma objects_rev: "objects w (rev ps) = rev (objects w ps)"
  by (simp add: objects_def rev_concat rev_map) (induction ps, auto split: content.splits)

text \<open>The loop is a left fold of dictionary update over the files that exist.\<close>

lemma load_cfg_fold:
  assumes "\<forall>p\<in>set ps. fs w p = Fails ENOENT \<or> (\<exists>d. fs w p = Object d)"
  shows "load_cfg ps cfg w =
           (Inr (foldl (++) cfg (objects w ps)), w\<lparr>trace := trace w @ map Ev_open_r ps\<rparr>)"
  using assms
proof (induction ps arbitrary: cfg w)
  case Nil
  then show ?case by (simp add: objects_def)
next
  case (Cons p ps)
  let ?w = "w\<lparr>trace := trace w @ [Ev_open_r p]\<rparr>"
  from Cons.prems have rest: "\<forall>q\<in>set ps. fs ?w q = Fails ENOENT \<or> (\<exists>d. fs ?w q = Object d)"
    by simp
  from Cons.prems have "fs w p = Fails ENOENT \<or> (\<exists>d. fs w p = Object d)"
    by simp
  then show ?case
  proof
    assume "fs w p = Fails ENOENT"
    then show ?thesis
      using Cons.IH [OF rest, of cfg] by (simp add: open_load_def objects_Cons)
  next
    assume "\<exists>d. fs w p = Object d"
    then obtain d where d: "fs w p = Object d" ..
    then show ?thesis
      using Cons.IH [OF rest, of "cfg ++ d"] by (simp add: open_load_def objects_Cons)
  qed
qed

lemma foldl_map_add_rev:
  "foldl (++) c (rev ds) k = (case first_def ds k of Some v \<Rightarrow> Some v | None \<Rightarrow> c k)"
  by (induction ds) (auto simp: map_add_def split: option.splits)

lemma config_dirs_hd: "config_dirs e \<noteq> [] \<and> hd (config_dirs e) = config_dir e"
  by (simp add: config_dirs_def split: platform.splits)

lemma paths_xdg:
  "etph_paths env_xdg (Str ''ipython'') (config_dirs env_xdg) =
     Inr [both_path, user_path, system_path]"
  by (simp add: config_dirs_def config_dir_def env_xdg_def env_linux_def environ_or_def
      etph_path_def percent_s_def posix_join_def join2_def both_path_def user_path_def
      system_path_def)

text \<open>
  C9. \<open>files\<close> is the search list, the user's own file first as \<open>_config_file\<close>
  builds it. When each file is absent or holds an object, the loop over the reversed list
  ends with a config that gives every key the value of the first file in search order
  that has the key: a more specific file overrides a more general one key by key, and
  absent files count for nothing.
\<close>

theorem config_merge_order:
  assumes "\<forall>p\<in>set files. fs w p = Fails ENOENT \<or> (\<exists>d. fs w p = Object d)"
  shows "\<exists>cfg w'. load_cfg (rev files) Map.empty w = (Inr cfg, w') \<and>
           (\<forall>k. cfg k = first_def (objects w files) k)"
proof -
  from assms have "\<forall>p\<in>set (rev files). fs w p = Fails ENOENT \<or> (\<exists>d. fs w p = Object d)"
    by simp
  then have "load_cfg (rev files) Map.empty w =
      (Inr (foldl (++) Map.empty (objects w (rev files))),
       w\<lparr>trace := trace w @ map Ev_open_r (rev files)\<rparr>)"
    by (rule load_cfg_fold)
  moreover have
    "\<forall>k. foldl (++) Map.empty (objects w (rev files)) k = first_def (objects w files) k"
    by (simp add: objects_rev foldl_map_add_rev split: option.splits)
  ultimately show ?thesis by blast
qed

text \<open>
  The example of the claim: the system file has \<open>enabled\<close> true and \<open>frequency\<close>
  weekly, the user file only \<open>frequency\<close> daily, and a third listed file is absent.
\<close>

theorem config_merge_order_witness:
  "etph_paths env_xdg (Str ''ipython'') (config_dirs env_xdg) =
     Inr [both_path, user_path, system_path] \<and>
   (\<exists>cfg w'. load_cfg (rev [both_path, user_path, system_path]) Map.empty world_cfg =
        (Inr cfg, w') \<and>
      cfg ''enabled'' = Some (JBool True) \<and> cfg ''frequency'' = Some (JStr ''daily'') \<and>
      cfg ''destination'' = None)"
proof -
  have h: "\<forall>p\<in>set [both_path, user_path, system_path].
      fs world_cfg p = Fails ENOENT \<or> (\<exists>d. fs world_cfg p = Object d)"
    by (simp add: world_cfg_def both_path_def user_path_def system_path_def)
  have o: "objects world_cfg [both_path, user_path, system_path] =
      [[''frequency'' \<mapsto> JStr ''daily''],
       [''enabled'' \<mapsto> JBool True, ''frequency'' \<mapsto> JStr ''weekly'']]"
    by (simp add: objects_def world_cfg_def both_path_def user_path_def system_path_def)
  from config_merge_order [OF h] obtain cfg w' where
    "load_cfg (rev [both_path, user_path, system_path]) Map.empty world_cfg = (Inr cfg, w')"
    and "\<forall>k. cfg k = first_def (objects world_cfg [both_path, user_path, system_path]) k"
    by blast
  then show ?thesis using paths_xdg by (simp add: o)
qed


section \<open>The gate and the submission\<close>

text \<open>
  C4. \<open>trigger\<close> decides to submit when the sum on line 123 does not lie after the
  clock. Then, if the state file cannot be opened for writing, the \<open>OSError\<close> is the
  result and \<open>_send\<close> is not called; otherwise the state file holds the record with
  the clock's timestamp, the destination and the data, and the record was written before
  \<open>_send\<close> was called.
\<close>

theorem persist_before_send:
  assumes "datetime_add last_sent_at iv = Inr due" and "\<not> due > usec_of (clock w)"
  shows "(wr_err w p = Some n \<longrightarrow>
            gate_and_submit (Some iv) dst p last_sent_at data w =
              (Inl (OSError n), w\<lparr>trace := trace w @ [Ev_open_w p]\<rparr>)) \<and>
         (wr_err w p = None \<longrightarrow>
            fs (snd (gate_and_submit (Some iv) dst p last_sent_at data w)) p =
              Object (submission_record (clock w) dst data) \<and>
            trace (snd (gate_and_submit (Some iv) dst p last_sent_at data w)) =
              trace w @ [Ev_open_w p, Ev_dump p (submission_record (clock w) dst data),
                         Ev_call_send data dst])"
  using assms
  by (simp add: gate_and_submit_def persist_and_send_def open_dump_def send_def Let_def)

theorem persist_before_send_witness:
  "datetime_add (datetime_ymd 2000 1 1) (timedelta_weeks 7) = Inr 63086601600000000 \<and>
   \<not> 63086601600000000 > usec_of (clock world0) \<and>
   gate_and_submit (Some (timedelta_weeks 7)) url state_path (datetime_ymd 2000 1 1) payload
       world_ro =
     (Inl (OSError 13), world_ro\<lparr>trace := [Ev_open_w state_path]\<rparr>) \<and>
   fs (snd (gate_and_submit (Some (timedelta_weeks 7)) url state_path (datetime_ymd 2000 1 1)
         payload world0)) state_path =
     Object (submission_record (clock world0) url payload) \<and>
   trace (snd (gate_and_submit (Some (timedelta_weeks 7)) url state_path (datetime_ymd 2000 1 1)
         payload world0)) =
     [Ev_open_w state_path, Ev_dump state_path (submission_record (clock world0) url payload),
      Ev_call_send payload url]"
proof -
  note a = sentinel_plus_7_weeks
  have b: "\<not> 63086601600000000 > usec_of (clock world0)"
    by (simp add: usec_world0)
  have b': "\<not> 63086601600000000 > usec_of (clock world_ro)"
    by (simp add: usec_world0 world_ro_def)
  have c: "wr_err world_ro state_path = Some 13" "wr_err world0 state_path = None"
    by (simp_all add: world_ro_def world0_def)
  show ?thesis
    using persist_before_send [OF a b', of state_path 13 url payload]
      persist_before_send [OF a b, of state_path 13 url payload] a b c
    by (simp add: world_ro_def world0_def)
qed

text \<open>
  C5, as amended. For an enabled config with a destination and a frequency that is
  absent or one of the three names, with no state file, a state file that can be written
  and the clock at or after 2000-01-01 plus the send interval, the body of \<open>trigger\<close>
  from line 93 writes a state file whose record has the clock's timestamp, the
  destination, and the data with the newly generated \<open>user_id\<close>, and then calls
  \<open>_send\<close>.
\<close>

theorem first_submission:
  assumes "truthy (dict_get cfg ''enabled'' (JBool False))"
    and "cfg ''destination'' = Some dst"
    and "send_interval cfg = Some iv"
    and "fs w p = Fails ENOENT"
    and "wr_err w p = None"
    and "usec_of (datetime_ymd 2000 1 1) + iv \<le> usec_of (clock w)"
  shows "fs (snd (trigger_cfg cfg (Inr p) data w)) p =
           Object (submission_record (clock w) dst (data(''user_id'' \<mapsto> JStr (uuid4 w)))) \<and>
         trace (snd (trigger_cfg cfg (Inr p) data w)) =
           trace w @ [Ev_open_r p, Ev_open_w p,
             Ev_dump p (submission_record (clock w) dst (data(''user_id'' \<mapsto> JStr (uuid4 w)))),
             Ev_call_send (data(''user_id'' \<mapsto> JStr (uuid4 w))) dst]"
proof -
  from assms(3)
  have "datetime_add (datetime_ymd 2000 1 1) iv = Inr (usec_of (datetime_ymd 2000 1 1) + iv)"
    by (intro sentinel_add send_interval_cases)
  with assms show ?thesis
    by (simp add: trigger_cfg_def dict_item_def read_last_def open_load_def gate_and_submit_def
        persist_and_send_def open_dump_def send_def Let_def)
qed

theorem first_submission_witness:
  "fs (snd (trigger_cfg cfg_weekly (Inr state_path) payload world0)) state_path =
     Object [''timestamp'' \<mapsto> JStr ''2024-05-17T10:30:00.000250'', ''destination'' \<mapsto> url,
             ''data'' \<mapsto>
               JObj (payload(''user_id'' \<mapsto> JStr ''123e4567-e89b-42d3-a456-426614174000''))]"
proof -
  have "truthy (dict_get cfg_weekly ''enabled'' (JBool False))"
    by (simp add: cfg_weekly_def dict_get_def)
  moreover have "cfg_weekly ''destination'' = Some url"
    by (simp add: cfg_weekly_def)
  moreover have "send_interval cfg_weekly = Some (timedelta_weeks 7)"
    by (simp add: send_interval_def cfg_weekly_def dict_get_def)
  moreover have "fs world0 state_path = Fails ENOENT" "wr_err world0 state_path = None"
    by (simp_all add: world0_def)
  moreover have "usec_of (datetime_ymd 2000 1 1) + timedelta_weeks 7 \<le> usec_of (clock world0)"
    by (simp add: usec_sentinel usec_world0 timedelta_weeks_def timedelta_days_def
        usec_per_day_def)
  ultimately have "fs (snd (trigger_cfg cfg_weekly (Inr state_path) payload world0)) state_path =
      Object (submission_record (clock world0) url (payload(''user_id'' \<mapsto> JStr (uuid4 world0))))"
    using first_submission [of cfg_weekly url "timedelta_weeks 7" world0 state_path payload]
    by blast
  moreover have "uuid4 world0 = ''123e4567-e89b-42d3-a456-426614174000''"
    by (simp add: world0_def)
  ultimately show ?thesis by (simp add: submission_record_def isoformat_world0)
qed

text \<open>
  With the clock before 2000-01-01 plus the interval, the first call for an enabled
  config with no state file returns without writing the state file or calling \<open>_send\<close>.
\<close>

theorem first_call_before_2000_skips:
  "truthy (dict_get cfg_weekly ''enabled'' (JBool False)) \<and>
   fs world_epoch state_path = Fails ENOENT \<and>
   trigger_cfg cfg_weekly (Inr state_path) payload world_epoch =
     (Inr (), world_epoch\<lparr>trace := [Ev_open_r state_path]\<rparr>) \<and>
   fs (snd (trigger_cfg cfg_weekly (Inr state_path) payload world_epoch)) state_path =
     Fails ENOENT"
proof -
  have u: "usec_of (clock world_epoch) = 62135683205000000"
    by (simp add: usec_of_def world_epoch_def toordinal_def days_before_year_def
        days_before_month_def)
  have r: "trigger_cfg cfg_weekly (Inr state_path) payload world_epoch =
     (Inr (), world_epoch\<lparr>trace := [Ev_open_r state_path]\<rparr>)"
    using u sentinel_plus_7_weeks
    by (simp add: trigger_cfg_def cfg_weekly_def dict_get_def dict_item_def send_interval_def
        read_last_def open_load_def gate_and_submit_def world_epoch_def world0_def Let_def)
  show ?thesis
    by (simp add: r) (simp add: cfg_weekly_def dict_get_def world_epoch_def world0_def)
qed

text \<open>
  C8. With the frequency \<open>hourly\<close> the body of \<open>trigger\<close> opens the state file
  and only then fails, on line 123, with \<open>UnboundLocalError\<close>: the \<^verbatim>\<open>if\<close> chain of
  lines 98 to 103 has no \<^verbatim>\<open>else\<close> that would refuse the value.
\<close>

theorem unknown_frequency_reads_state:
  "trigger_cfg cfg_hourly (Inr state_path) payload world0 =
     (Inl UnboundLocalError, world0\<lparr>trace := [Ev_open_r state_path]\<rparr>)"
  by (simp add: trigger_cfg_def cfg_hourly_def dict_get_def dict_item_def send_interval_def
     read_last_def open_load_def world0_def gate_and_submit_def Let_def)

lemma first_run:
  "trigger_cfg cfg_weekly (Inr state_path) payload world0 =
     (Inl TypeError,
      world0\<lparr>fs := (fs world0)(state_path := Object (submission_record (clock world0) url
                 (payload(''user_id'' \<mapsto> JStr (uuid4 world0))))),
             isfile := (isfile world0)(state_path := True),
             trace := [Ev_open_r state_path, Ev_open_w state_path,
               Ev_dump state_path (submission_record (clock world0) url
                 (payload(''user_id'' \<mapsto> JStr (uuid4 world0)))),
               Ev_call_send (payload(''user_id'' \<mapsto> JStr (uuid4 world0))) url]\<rparr>)"
proof -
  have f: "fs world0 state_path = Fails ENOENT" "wr_err world0 state_path = None"
    "trace world0 = []"
    by (simp_all add: world0_def)
  show ?thesis
    using sentinel_plus_7_weeks f usec_world0
    by (simp add: trigger_cfg_def cfg_weekly_def dict_get_def dict_item_def send_interval_def
        read_last_def open_load_def gate_and_submit_def persist_and_send_def open_dump_def
        send_def Let_def)
qed

text \<open>
  C2. The record that a submission writes keeps the \<open>user_id\<close> inside \<open>data\<close>
  and has no \<open>user_id\<close> key of its own, which is where line 120 looks for it: the next
  run of the body of \<open>trigger\<close> on that state file raises \<open>KeyError\<close>, so the
  identifier is not carried to a second submission.
\<close>

theorem second_run_raises_KeyError:
  "fs (snd (trigger_cfg cfg_weekly (Inr state_path) payload world0)) state_path =
     Object (submission_record (clock world0) url
       (payload(''user_id'' \<mapsto> JStr (uuid4 world0)))) \<and>
   submission_record (clock world0) url (payload(''user_id'' \<mapsto> JStr (uuid4 world0)))
     ''user_id'' = None \<and>
   fst (trigger_cfg cfg_weekly (Inr state_path) payload
          ((snd (trigger_cfg cfg_weekly (Inr state_path) payload world0))\<lparr>clock := later\<rparr>)) =
     Inl KeyError"
  by (simp add: first_run)
     (simp add: trigger_cfg_def cfg_weekly_def dict_get_def dict_item_def send_interval_def
        read_last_def open_load_def submission_record_def isoformat_world0 parse_world0 Let_def)


section \<open>The matcher against the matches of a pattern\<close>

text \<open>
  Whatever the matcher returns comes from one of the runs of the pattern, and where there
  is a run that the continuation accepts, the matcher returns a match.
\<close>

lemma rx_match_sound:
  "rx_match r s g k = Some m \<Longrightarrow> \<exists>(s', g') \<in> runs r s g. k s' g' = Some m"
proof (induction r arbitrary: s g k m)
  case (Seq a b)
  from Seq.prems have "rx_match a s g (\<lambda>s' g'. rx_match b s' g' k) = Some m" by simp
  from Seq.IH(1) [OF this] obtain s1 g1 where
    1: "(s1, g1) \<in> runs a s g" and "rx_match b s1 g1 k = Some m" by auto
  from Seq.IH(2) [OF this(2)] obtain s2 g2 where
    "(s2, g2) \<in> runs b s1 g1" and "k s2 g2 = Some m" by auto
  with 1 show ?case by auto
next
  case (Opt a)
  show ?case
  proof (cases "rx_match a s g k")
    case None
    with Opt.prems show ?thesis by simp
  next
    case (Some r)
    with Opt.prems have "rx_match a s g k = Some m" by simp
    from Opt.IH [OF this] show ?thesis by auto
  qed
next
  case (Grp i a)
  from Grp.prems
  have "rx_match a s g (\<lambda>s' g'. k s' (g'(i \<mapsto> take (length s - length s') s))) = Some m"
    by simp
  from Grp.IH [OF this] obtain x where
    x: "x \<in> runs a s g"
      "case x of (s', g') \<Rightarrow> k s' (g'(i \<mapsto> take (length s - length s') s)) = Some m"
    by blast
  obtain s1 g1 where "x = (s1, g1)" by (cases x)
  with x have
    1: "(s1, g1) \<in> runs a s g" and 2: "k s1 (g1(i \<mapsto> take (length s - length s1) s)) = Some m"
    by simp_all
  from 1 have "(s1, g1(i \<mapsto> take (length s - length s1) s)) \<in> runs (Grp i a) s g"
    by force
  with 2 show ?case by blast
qed (auto split: list.splits if_splits)

lemma rx_match_complete:
  "(s', g') \<in> runs r s g \<Longrightarrow> k s' g' \<noteq> None \<Longrightarrow> rx_match r s g k \<noteq> None"
proof (induction r arbitrary: s g k s' g')
  case (Seq a b)
  from Seq.prems(1) obtain s1 g1 where
    1: "(s1, g1) \<in> runs a s g" and 2: "(s', g') \<in> runs b s1 g1" by auto
  from Seq.IH(2) 2 Seq.prems(2) have "rx_match b s1 g1 k \<noteq> None" by blast
  with 1 Seq.IH(1) [where k = "\<lambda>s' g'. rx_match b s' g' k" and s' = s1 and g' = g1
      and s = s and g = g]
  show ?case by simp
next
  case (Opt a)
  from Opt.prems(1) have "(s', g') \<in> runs a s g \<or> (s', g') = (s, g)" by auto
  then show ?case
  proof
    assume "(s', g') \<in> runs a s g"
    with Opt.IH Opt.prems(2) have "rx_match a s g k \<noteq> None" by blast
    then show ?thesis by (auto split: option.splits)
  next
    assume "(s', g') = (s, g)"
    with Opt.prems(2) show ?thesis by (auto split: option.splits)
  qed
next
  case (Grp i a)
  from Grp.prems(1) obtain g1 where
    1: "(s', g1) \<in> runs a s g" and 2: "g' = g1(i \<mapsto> take (length s - length s') s)" by auto
  from Grp.prems(2) have 3: "k s' (g1(i \<mapsto> take (length s - length s') s)) \<noteq> None"
    unfolding 2 .
  have "rx_match a s g (\<lambda>s' g'. k s' (g'(i \<mapsto> take (length s - length s') s))) \<noteq> None"
    by (rule Grp.IH [where k = "\<lambda>s' g'. k s' (g'(i \<mapsto> take (length s - length s') s))"
          and s' = s' and g' = g1 and s = s and g = g, OF 1 3])
  then show ?case unfolding rx_match.simps .
qed (auto split: list.splits if_splits)

text \<open>The runs of \<^verbatim>\<open>\d{n}\<close> and of \<^verbatim>\<open>\d{0,n}\<close>.\<close>

lemma runs_times_Digit:
  "(s', g') \<in> runs (rx_times n Digit) s g \<longleftrightarrow>
     g' = g \<and> (\<exists>u. s = u @ s' \<and> length u = n \<and> list_all is_digit u)"
proof (induction n arbitrary: s)
  case 0
  show ?case by auto
next
  case (Suc n)
  show ?case
  proof
    assume "(s', g') \<in> runs (rx_times (Suc n) Digit) s g"
    then obtain c s1 where "is_digit c" "s = c # s1" "(s', g') \<in> runs (rx_times n Digit) s1 g"
      by auto
    with Suc.IH [of s1] obtain u where "g' = g" "s1 = u @ s'" "length u = n" "list_all is_digit u"
      by auto
    with \<open>is_digit c\<close> \<open>s = c # s1\<close>
    have "s = (c # u) @ s' \<and> length (c # u) = Suc n \<and> list_all is_digit (c # u)" by simp
    with \<open>g' = g\<close> show "g' = g \<and> (\<exists>u. s = u @ s' \<and> length u = Suc n \<and> list_all is_digit u)"
      by blast
  next
    assume "g' = g \<and> (\<exists>u. s = u @ s' \<and> length u = Suc n \<and> list_all is_digit u)"
    then obtain u where u: "g' = g" "s = u @ s'" "length u = Suc n" "list_all is_digit u" by auto
    then obtain c u' where "u = c # u'" by (cases u) auto
    with u have "is_digit c" "s = c # (u' @ s')" "length u' = n" "list_all is_digit u'" by auto
    with Suc.IH [of "u' @ s'"] u(1) show "(s', g') \<in> runs (rx_times (Suc n) Digit) s g"
      by auto
  qed
qed

lemma runs_upto_Digit:
  "(s', g') \<in> runs (rx_upto n Digit) s g \<longleftrightarrow>
     g' = g \<and> (\<exists>u. s = u @ s' \<and> length u \<le> n \<and> list_all is_digit u)"
proof (induction n arbitrary: s)
  case 0
  show ?case by auto
next
  case (Suc n)
  show ?case
  proof
    assume "(s', g') \<in> runs (rx_upto (Suc n) Digit) s g"
    then have "(s', g') = (s, g) \<or>
        (\<exists>c s1. is_digit c \<and> s = c # s1 \<and> (s', g') \<in> runs (rx_upto n Digit) s1 g)"
      by auto
    then show "g' = g \<and> (\<exists>u. s = u @ s' \<and> length u \<le> Suc n \<and> list_all is_digit u)"
    proof
      assume "(s', g') = (s, g)"
      then have "g' = g \<and> s = [] @ s' \<and> length ([]::string) \<le> Suc n \<and> list_all is_digit []"
        by simp
      then show ?thesis by blast
    next
      assume "\<exists>c s1. is_digit c \<and> s = c # s1 \<and> (s', g') \<in> runs (rx_upto n Digit) s1 g"
      then obtain c s1 where c: "is_digit c" "s = c # s1" "(s', g') \<in> runs (rx_upto n Digit) s1 g"
        by auto
      with Suc.IH [of s1] obtain u where "g' = g" "s1 = u @ s'" "length u \<le> n" "list_all is_digit u"
        by auto
      with c have "s = (c # u) @ s' \<and> length (c # u) \<le> Suc n \<and> list_all is_digit (c # u)" by simp
      with \<open>g' = g\<close> show ?thesis by blast
    qed
  next
    assume "g' = g \<and> (\<exists>u. s = u @ s' \<and> length u \<le> Suc n \<and> list_all is_digit u)"
    then obtain u where u: "g' = g" "s = u @ s'" "length u \<le> Suc n" "list_all is_digit u" by auto
    show "(s', g') \<in> runs (rx_upto (Suc n) Digit) s g"
    proof (cases u)
      case Nil
      with u show ?thesis by simp
    next
      case (Cons c u')
      with u have "is_digit c" "s = c # (u' @ s')" "length u' \<le> n" "list_all is_digit u'" by auto
      with Suc.IH [of "u' @ s'"] u(1) show ?thesis by auto
    qed
  qed
qed


section \<open>The parts of the timestamp pattern\<close>

lemma rx_times_numeral: "rx_times (numeral k) r = Seq r (rx_times (pred_numeral k) r)"
  by (metis numeral_eq_Suc rx_times.simps(2))

lemma rx_upto_numeral: "rx_upto (numeral k) r = Opt (Seq r (rx_upto (pred_numeral k) r))"
  by (metis numeral_eq_Suc rx_upto.simps(2))

text \<open>
  A run of \<open>STAMP\<close>, \<open>FRACTION\<close> or \<open>OFFSET\<close> consumes a string of the
  matching shape and leaves the groups alone, and each string of the shape has such a run.
\<close>

lemma length_19:
  "length (u::'a list) = 19 \<Longrightarrow>
   \<exists>a0 a1 a2 a3 a4 a5 a6 a7 a8 a9 b0 b1 b2 b3 b4 b5 b6 b7 b8.
     u = [a0, a1, a2, a3, a4, a5, a6, a7, a8, a9, b0, b1, b2, b3, b4, b5, b6, b7, b8]"
  by (simp add: eval_nat_numeral length_Suc_conv) blast

lemma runs_STAMP_intro:
  assumes "stamp_shape u"
  shows "(s', g) \<in> runs STAMP (u @ s') g"
proof -
  from assms have "length u = 19" by (simp add: stamp_shape_def)
  from length_19 [OF this] obtain a0 a1 a2 a3 a4 a5 a6 a7 a8 a9 b0 b1 b2 b3 b4 b5 b6 b7 b8
    where u: "u = [a0, a1, a2, a3, a4, a5, a6, a7, a8, a9, b0, b1, b2, b3, b4, b5, b6, b7, b8]"
    by blast
  from assms show ?thesis
    unfolding u by (simp add: stamp_shape_def STAMP_def seqs_def rx_times_numeral)
qed

lemma runs_STAMP_elim:
  assumes "(s', g') \<in> runs STAMP s g"
  shows "g' = g \<and> (\<exists>u. s = u @ s' \<and> stamp_shape u)"
proof -
  from assms obtain u1 u2 u3 u4 u5 u6 where
    s: "s = u1 @ CHR ''-'' # u2 @ CHR ''-'' # u3 @ CHR ''T'' # u4 @ CHR '':'' # u5 @ CHR '':'' # u6 @ s'"
    and l: "length u1 = 4" "length u2 = 2" "length u3 = 2" "length u4 = 2" "length u5 = 2" "length u6 = 2"
    and d: "list_all is_digit u1" "list_all is_digit u2" "list_all is_digit u3"
       "list_all is_digit u4" "list_all is_digit u5" "list_all is_digit u6"
    and g: "g' = g"
    by (auto simp: STAMP_def seqs_def runs_times_Digit)
  let ?u = "u1 @ CHR ''-'' # u2 @ CHR ''-'' # u3 @ CHR ''T'' # u4 @ CHR '':'' # u5 @ CHR '':'' # u6"
  from l d have "stamp_shape ?u"
    by (simp add: stamp_shape_def nth_append)
  moreover from s have "s = ?u @ s'" by simp
  ultimately show ?thesis using g by blast
qed

lemma runs_FRACTION_intro:
  assumes "frac_shape f"
  shows "(s', g) \<in> runs FRACTION (f @ s') g"
proof -
  from assms obtain t where f: "f = CHR ''.'' # t" and t: "1 \<le> length t" "length t \<le> 6"
    "list_all is_digit t"
    by (cases f) (auto simp: frac_shape_def)
  from t obtain c t' where t': "t = c # t'" by (cases t) auto
  with t have c: "is_digit c" "length t' \<le> 5" "list_all is_digit t'" by auto
  then have "(s', g) \<in> runs (rx_upto 5 Digit) (t' @ s') g"
    by (auto simp: runs_upto_Digit)
  with c show ?thesis
    unfolding f t' by (auto simp: FRACTION_def seqs_def rx_range_def)
qed

lemma runs_FRACTION_elim:
  assumes "(s', g') \<in> runs FRACTION s g"
  shows "g' = g \<and> (\<exists>f. s = f @ s' \<and> frac_shape f)"
proof -
  from assms obtain c u where s: "s = CHR ''.'' # c # u @ s'" and c: "is_digit c"
    and u: "length u \<le> 5" "list_all is_digit u" and g: "g' = g"
    by (auto simp: FRACTION_def seqs_def rx_range_def runs_upto_Digit)
  from c u have "frac_shape (CHR ''.'' # c # u)" by (simp add: frac_shape_def)
  moreover from s have "s = (CHR ''.'' # c # u) @ s'" by simp
  ultimately show ?thesis using g by blast
qed

lemma length_5:
  "length (u::'a list) = 5 \<Longrightarrow> \<exists>a0 a1 a2 a3 a4. u = [a0, a1, a2, a3, a4]"
  by (simp add: eval_nat_numeral length_Suc_conv) blast

lemma length_6:
  "length (u::'a list) = 6 \<Longrightarrow> \<exists>a0 a1 a2 a3 a4 a5. u = [a0, a1, a2, a3, a4, a5]"
  by (simp add: eval_nat_numeral length_Suc_conv) blast

lemma runs_OFFSET_intro:
  assumes "offset_shape x"
  shows "(s', g) \<in> runs OFFSET (x @ s') g"
proof -
  from assms have "length x = 5 \<or> length x = 6" by (auto simp: offset_shape_def)
  then show ?thesis
  proof
    assume "length x = 5"
    from length_5 [OF this] obtain a0 a1 a2 a3 a4 where x: "x = [a0, a1, a2, a3, a4]" by blast
    from assms show ?thesis
      unfolding x by (auto simp: offset_shape_def OFFSET_def seqs_def rx_times_numeral)
  next
    assume "length x = 6"
    from length_6 [OF this] obtain a0 a1 a2 a3 a4 a5 where x: "x = [a0, a1, a2, a3, a4, a5]"
      by blast
    from assms show ?thesis
      unfolding x by (auto simp: offset_shape_def OFFSET_def seqs_def rx_times_numeral)
  qed
qed

lemma runs_OFFSET_elim:
  assumes "(s', g') \<in> runs OFFSET s g"
  shows "g' = g \<and> (\<exists>x. s = x @ s' \<and> offset_shape x)"
proof -
  from assms obtain c u1 s1 where c: "c = CHR ''+'' \<or> c = CHR ''-''" and s: "s = c # u1 @ s1"
    and u1: "length u1 = 2" "list_all is_digit u1"
    and r: "(s', g') \<in> runs (seqs [Opt (Chr CHR '':''), rx_times 2 Digit]) s1 g"
    by (auto simp: OFFSET_def seqs_def runs_times_Digit)
  from r obtain u2 where u2: "length u2 = 2" "list_all is_digit u2" and g: "g' = g"
    and s1: "s1 = u2 @ s' \<or> s1 = CHR '':'' # u2 @ s'"
    by (auto simp: seqs_def runs_times_Digit)
  from c u1 u2 have "offset_shape (c # u1 @ u2)" "offset_shape (c # u1 @ CHR '':'' # u2)"
    by (auto simp: offset_shape_def nth_append nth_Cons')
  moreover from s s1 have "s = (c # u1 @ u2) @ s' \<or> s = (c # u1 @ CHR '':'' # u2) @ s'"
    by auto
  ultimately show ?thesis using g by blast
qed

lemma runs_Grp_elim:
  assumes "(s', g') \<in> runs (Grp i a) s g"
    and "\<And>g1. (s', g1) \<in> runs a s g \<Longrightarrow> g1 = g \<and> (\<exists>u. s = u @ s' \<and> P u)"
  shows "\<exists>u. s = u @ s' \<and> P u \<and> g' = g(i \<mapsto> u)"
proof -
  from assms(1) obtain g1 where 1: "(s', g1) \<in> runs a s g"
    and 2: "g' = g1(i \<mapsto> take (length s - length s') s)" by auto
  from assms(2) [OF 1] obtain u where "g1 = g" "s = u @ s'" "P u" by blast
  with 2 show ?thesis by auto
qed

lemma runs_Grp_intro:
  assumes "(s', g) \<in> runs a (u @ s') g"
  shows "(s', g(i \<mapsto> u)) \<in> runs (Grp i a) (u @ s') g"
proof -
  have "(s', g(i \<mapsto> take (length (u @ s') - length s') (u @ s'))) \<in> runs (Grp i a) (u @ s') g"
    using assms by force
  then show ?thesis by simp
qed

lemma runs_Seq_iff:
  "(s', g') \<in> runs (Seq a b) s g \<longleftrightarrow>
     (\<exists>s1 g1. (s1, g1) \<in> runs a s g \<and> (s', g') \<in> runs b s1 g1)"
  by auto

lemma runs_Eps_iff: "(s', g') \<in> runs Eps s g \<longleftrightarrow> s' = s \<and> g' = g"
  by auto

lemma pattern_elim:
  assumes "(s', m) \<in> runs ISO8601_PAT s g"
  shows "\<exists>stamp frac z off. s = stamp @ frac @ z @ off @ s' \<and> iso8601_parts stamp frac z off s' \<and>
           m 1 = Some stamp \<and> m 2 = (if frac = [] then g 2 else Some frac)"
proof -
  from assms have "\<exists>s1 g1 s2 g2 s3 g3 s4 g4.
      (s1, g1) \<in> runs (Grp 1 STAMP) s g \<and>
      (s2, g2) \<in> runs (Opt (Grp 2 FRACTION)) s1 g1 \<and>
      (s3, g3) \<in> runs (Opt (Chr CHR ''Z'')) s2 g2 \<and>
      (s4, g4) \<in> runs (Opt (Grp 3 OFFSET)) s3 g3 \<and>
      (s', m) \<in> runs Eos s4 g4"
    unfolding ISO8601_PAT_def seqs_def
    by (simp only: foldr.simps o_apply id_apply runs_Seq_iff runs_Eps_iff) blast
  then obtain s1 g1 s2 g2 s3 g3 s4 g4 where
    1: "(s1, g1) \<in> runs (Grp 1 STAMP) s g"
    and 2: "(s2, g2) \<in> runs (Opt (Grp 2 FRACTION)) s1 g1"
    and 3: "(s3, g3) \<in> runs (Opt (Chr CHR ''Z'')) s2 g2"
    and 4: "(s4, g4) \<in> runs (Opt (Grp 3 OFFSET)) s3 g3"
    and 5: "(s', m) \<in> runs Eos s4 g4"
    by blast
  from runs_Grp_elim [OF 1 runs_STAMP_elim] obtain stamp where
    stamp: "s = stamp @ s1" "stamp_shape stamp" "g1 = g(1 \<mapsto> stamp)" by blast
  have "\<exists>frac. s1 = frac @ s2 \<and> (frac = [] \<or> frac_shape frac) \<and>
      g2 = (if frac = [] then g1 else g1(2 \<mapsto> frac))"
  proof (cases "(s2, g2) = (s1, g1)")
    case True
    then show ?thesis by auto
  next
    case False
    with 2 have "(s2, g2) \<in> runs (Grp 2 FRACTION) s1 g1" by auto
    from runs_Grp_elim [OF this runs_FRACTION_elim] obtain f where
      f: "s1 = f @ s2" "frac_shape f" "g2 = g1(2 \<mapsto> f)" by blast
    then have "f \<noteq> []" by (auto simp: frac_shape_def)
    with f show ?thesis by auto
  qed
  then obtain frac where frac: "s1 = frac @ s2" "frac = [] \<or> frac_shape frac"
    "g2 = (if frac = [] then g1 else g1(2 \<mapsto> frac))" by blast
  from 3 obtain z where z: "s2 = z @ s3" "z = [] \<or> z = ''Z''" "g3 = g2" by auto
  have "\<exists>off. s3 = off @ s4 \<and> (off = [] \<or> offset_shape off) \<and> g4 1 = g3 1 \<and> g4 2 = g3 2"
  proof (cases "(s4, g4) = (s3, g3)")
    case True
    then show ?thesis by auto
  next
    case False
    with 4 have "(s4, g4) \<in> runs (Grp 3 OFFSET) s3 g3" by auto
    from runs_Grp_elim [OF this runs_OFFSET_elim] obtain x where
      "s3 = x @ s4" "offset_shape x" "g4 = g3(3 \<mapsto> x)" by blast
    then show ?thesis by auto
  qed
  then obtain off where off: "s3 = off @ s4" "off = [] \<or> offset_shape off"
    "g4 1 = g3 1" "g4 2 = g3 2" by blast
  from 5 have e: "s4 = s'" "m = g4" "s' = [] \<or> s' = [CHR 0x0A]"
    by (auto split: if_splits)
  from stamp frac z off e have "s = stamp @ frac @ z @ off @ s'" by simp
  moreover from stamp frac z off e have "iso8601_parts stamp frac z off s'"
    by (simp add: iso8601_parts_def)
  moreover from stamp frac z off e have "m 1 = Some stamp"
    by (simp split: if_splits)
  moreover from stamp frac z off e have "m 2 = (if frac = [] then g 2 else Some frac)"
    by (simp split: if_splits)
  ultimately show ?thesis by blast
qed

lemma pattern_intro:
  assumes "iso8601_parts stamp frac z off nl"
  shows "\<exists>m. (nl, m) \<in> runs ISO8601_PAT (stamp @ frac @ z @ off @ nl) g"
proof -
  from assms have p: "stamp_shape stamp" "frac = [] \<or> frac_shape frac" "z = [] \<or> z = ''Z''"
    "off = [] \<or> offset_shape off" "nl = [] \<or> nl = [CHR 0x0A]"
    by (simp_all add: iso8601_parts_def)
  let ?g1 = "g(1 \<mapsto> stamp)"
  have 1: "(frac @ z @ off @ nl, ?g1) \<in> runs (Grp 1 STAMP) (stamp @ frac @ z @ off @ nl) g"
    by (rule runs_Grp_intro) (rule runs_STAMP_intro [OF p(1)])
  obtain g2 where 2: "(z @ off @ nl, g2) \<in> runs (Opt (Grp 2 FRACTION)) (frac @ z @ off @ nl) ?g1"
  proof (cases "frac = []")
    case True
    then have "(z @ off @ nl, ?g1) \<in> runs (Opt (Grp 2 FRACTION)) (frac @ z @ off @ nl) ?g1"
      by simp
    then show ?thesis by (rule that)
  next
    case False
    with p(2) have "frac_shape frac" by simp
    then have "(z @ off @ nl, ?g1(2 \<mapsto> frac)) \<in> runs (Grp 2 FRACTION) (frac @ z @ off @ nl) ?g1"
      by (intro runs_Grp_intro runs_FRACTION_intro)
    then have "(z @ off @ nl, ?g1(2 \<mapsto> frac)) \<in> runs (Opt (Grp 2 FRACTION)) (frac @ z @ off @ nl) ?g1"
      by simp
    then show ?thesis by (rule that)
  qed
  from p(3) have 3: "(off @ nl, g2) \<in> runs (Opt (Chr CHR ''Z'')) (z @ off @ nl) g2"
    by auto
  obtain g4 where 4: "(nl, g4) \<in> runs (Opt (Grp 3 OFFSET)) (off @ nl) g2"
  proof (cases "off = []")
    case True
    then have "(nl, g2) \<in> runs (Opt (Grp 3 OFFSET)) (off @ nl) g2" by simp
    then show ?thesis by (rule that)
  next
    case False
    with p(4) have "offset_shape off" by simp
    then have "(nl, g2(3 \<mapsto> off)) \<in> runs (Grp 3 OFFSET) (off @ nl) g2"
      by (intro runs_Grp_intro runs_OFFSET_intro)
    then have "(nl, g2(3 \<mapsto> off)) \<in> runs (Opt (Grp 3 OFFSET)) (off @ nl) g2" by simp
    then show ?thesis by (rule that)
  qed
  from p(5) have 5: "(nl, g4) \<in> runs Eos nl g4" by auto
  have "(nl, g4) \<in> runs ISO8601_PAT (stamp @ frac @ z @ off @ nl) g"
    unfolding ISO8601_PAT_def seqs_def using 1 2 3 4 5
    by (simp only: foldr.simps o_apply id_apply runs_Seq_iff runs_Eps_iff) blast
  then show ?thesis by blast
qed


section \<open>The strings that parse as timestamps\<close>

text \<open>
  A string splits into the five parts in one way only, as far as the stamp and the
  fraction go: what follows the fraction starts with none of its characters.
\<close>

lemma digits_unique:
  assumes "list_all is_digit ds" "list_all is_digit ds'"
    and "r = [] \<or> \<not> is_digit (hd r)" "r' = [] \<or> \<not> is_digit (hd r')"
    and "ds @ r = ds' @ r'"
  shows "ds = ds'"
  using assms
proof (induction ds arbitrary: ds')
  case Nil
  then show ?case by (cases ds') auto
next
  case (Cons c ds)
  show ?case
  proof (cases ds')
    case Nil
    with Cons.prems show ?thesis by auto
  next
    case (Cons c' ds'')
    with Cons.prems Cons.IH [of ds''] show ?thesis by auto
  qed
qed

lemma tail_start:
  assumes "z = [] \<or> z = ''Z''" "off = [] \<or> offset_shape off" "nl = [] \<or> nl = [CHR 0x0A]"
  shows "z @ off @ nl = [] \<or>
         (\<not> is_digit (hd (z @ off @ nl)) \<and> hd (z @ off @ nl) \<noteq> CHR ''.'')"
  using assms by (auto simp: offset_shape_def is_digit_def)

lemma frac_unique:
  assumes "frac = [] \<or> frac_shape frac" "frac' = [] \<or> frac_shape frac'"
    and r: "r = [] \<or> (\<not> is_digit (hd r) \<and> hd r \<noteq> CHR ''.'')"
    and r': "r' = [] \<or> (\<not> is_digit (hd r') \<and> hd r' \<noteq> CHR ''.'')"
    and e: "frac @ r = frac' @ r'"
  shows "frac = frac'"
proof (cases "frac = []")
  case True
  show ?thesis
  proof (cases "frac' = []")
    case True
    with \<open>frac = []\<close> show ?thesis by simp
  next
    case False
    with assms(2) obtain t where "frac' = CHR ''.'' # t" by (cases frac') (auto simp: frac_shape_def)
    with \<open>frac = []\<close> e r show ?thesis by auto
  qed
next
  case False
  with assms(1) obtain t where t: "frac = CHR ''.'' # t" "list_all is_digit t"
    by (cases frac) (auto simp: frac_shape_def)
  show ?thesis
  proof (cases "frac' = []")
    case True
    with t e r' show ?thesis by auto
  next
    case False
    with assms(2) obtain t' where t': "frac' = CHR ''.'' # t'" "list_all is_digit t'"
      by (cases frac') (auto simp: frac_shape_def)
    from t t' e have "t @ r = t' @ r'" by simp
    with t t' r r' have "t = t'" by (intro digits_unique [of t t' r r']) auto
    with t t' show ?thesis by simp
  qed
qed

lemma parts_unique:
  assumes "iso8601_parts stamp frac z off nl" "iso8601_parts stamp' frac' z' off' nl'"
    and e: "stamp @ frac @ z @ off @ nl = stamp' @ frac' @ z' @ off' @ nl'"
  shows "stamp = stamp' \<and> frac = frac'"
proof -
  from assms(1,2) have l: "length stamp = length stamp'"
    by (simp add: iso8601_parts_def stamp_shape_def)
  with e have s: "stamp = stamp'" and e': "frac @ (z @ off @ nl) = frac' @ (z' @ off' @ nl')"
    by auto
  from assms(1) have 1: "z @ off @ nl = [] \<or>
      (\<not> is_digit (hd (z @ off @ nl)) \<and> hd (z @ off @ nl) \<noteq> CHR ''.'')"
    by (intro tail_start) (simp_all add: iso8601_parts_def)
  from assms(2) have 2: "z' @ off' @ nl' = [] \<or>
      (\<not> is_digit (hd (z' @ off' @ nl')) \<and> hd (z' @ off' @ nl') \<noteq> CHR ''.'')"
    by (intro tail_start) (simp_all add: iso8601_parts_def)
  from assms(1,2) have "frac = [] \<or> frac_shape frac" "frac' = [] \<or> frac_shape frac'"
    by (simp_all add: iso8601_parts_def)
  from frac_unique [OF this 1 2 e'] s show ?thesis by simp
qed

text \<open>What \<open>parse_datetime\<close> returns once the pattern has matched with given groups.\<close>

lemma strptime_parts:
  assumes "stamp_shape stamp" "frac = [] \<or> frac_shape frac"
  shows "strptime_ISO8601 (stamp @ (if frac = [] then ''.0'' else frac)) =
           (if calendar_ok (fields_of (stamp @ (if frac = [] then ''.0'' else frac)))
            then Inr (fields_of (stamp @ (if frac = [] then ''.0'' else frac)))
            else Inl ValueError)"
proof -
  from assms(1) have "length stamp = 19" by (simp add: stamp_shape_def)
  moreover have "frac_shape ''.0''" by (simp add: frac_shape_def is_digit_def)
  ultimately show ?thesis using assms by (auto simp: strptime_ISO8601_def)
qed

lemma parse_datetime_of_match:
  assumes "re_match ISO8601_PAT s = Some m"
  shows "\<exists>stamp frac z off nl. s = stamp @ frac @ z @ off @ nl \<and> iso8601_parts stamp frac z off nl \<and>
           parse_datetime s = strptime_ISO8601 (stamp @ (if frac = [] then ''.0'' else frac))"
proof -
  from assms have "rx_match ISO8601_PAT s (\<lambda>i. None) (\<lambda>s' g. Some g) = Some m"
    by (simp add: re_match_def)
  from rx_match_sound [OF this] obtain s' where "(s', m) \<in> runs ISO8601_PAT s (\<lambda>i. None)"
    by auto
  from pattern_elim [OF this] obtain stamp frac z off where
    p: "s = stamp @ frac @ z @ off @ s'" "iso8601_parts stamp frac z off s'"
      "m 1 = Some stamp" "m 2 = (if frac = [] then None else Some frac)"
    by blast
  from assms p(3,4) have
    "parse_datetime s = strptime_ISO8601 (stamp @ (if frac = [] then ''.0'' else frac))"
    by (simp add: parse_datetime_def)
  with p(1,2) show ?thesis by blast
qed

lemma re_match_parts:
  assumes "iso8601_parts stamp frac z off nl"
  shows "\<exists>m. re_match ISO8601_PAT (stamp @ frac @ z @ off @ nl) = Some m"
proof -
  from pattern_intro [OF assms] obtain m where
    "(nl, m) \<in> runs ISO8601_PAT (stamp @ frac @ z @ off @ nl) (\<lambda>i. None)" by blast
  from rx_match_complete [OF this, of "\<lambda>s' g. Some g"]
  show ?thesis by (simp add: re_match_def)
qed

text \<open>Every string of the five parts with fields of the calendar parses to those fields.\<close>

lemma parse_datetime_parts:
  assumes p: "iso8601_parts stamp frac z off nl"
    and c: "calendar_ok (fields_of (stamp @ (if frac = [] then ''.0'' else frac)))"
  shows "parse_datetime (stamp @ frac @ z @ off @ nl) =
           Inr (fields_of (stamp @ (if frac = [] then ''.0'' else frac)))"
proof -
  let ?s = "stamp @ frac @ z @ off @ nl"
  from re_match_parts [OF p] obtain m where "re_match ISO8601_PAT ?s = Some m" by blast
  from parse_datetime_of_match [OF this] obtain stamp' frac' z' off' nl' where
    q: "?s = stamp' @ frac' @ z' @ off' @ nl'" "iso8601_parts stamp' frac' z' off' nl'"
      "parse_datetime ?s = strptime_ISO8601 (stamp' @ (if frac' = [] then ''.0'' else frac'))"
    by blast
  from parts_unique [OF p q(2) q(1)] have u: "stamp' = stamp" "frac' = frac" by simp_all
  from q(3) have r:
    "parse_datetime ?s = strptime_ISO8601 (stamp @ (if frac = [] then ''.0'' else frac))"
    unfolding u .
  from p have "stamp_shape stamp" "frac = [] \<or> frac_shape frac"
    by (simp_all add: iso8601_parts_def)
  from strptime_parts [OF this] c
  have "strptime_ISO8601 (stamp @ (if frac = [] then ''.0'' else frac)) =
      Inr (fields_of (stamp @ (if frac = [] then ''.0'' else frac)))"
    by (simp only: if_True)
  with r show ?thesis by (simp only:)
qed

lemma foldl_zeros:
  "foldl (\<lambda>a c. 10 * a + (of_char c - 48)) (0::int) (replicate n CHR ''0'') = 0"
  by (induction n) simp_all

text \<open>
  C10, as amended. \<open>parse_datetime\<close> returns a datetime exactly for the strings made
  of a stamp \<^verbatim>\<open>YYYY-MM-DDTHH:MM:SS\<close> whose fields are a date of the calendar from year 1
  on and a time of day, then optionally a point and one to six digits, then optionally
  \<open>Z\<close>, then optionally a numeric offset, then optionally one final newline; \<open>Z\<close> and
  the offset may both be there. The datetime has the fields of the stamp and the fraction
  as microseconds, the suffix being dropped. On every other string it raises
  \<open>ValueError\<close>. An absent fraction reads as \<^verbatim>\<open>.0\<close>, microsecond 0.
\<close>

theorem parse_datetime_accepts:
  "(parse_datetime s = Inr t \<longleftrightarrow>
      (\<exists>stamp frac z off nl.
          s = stamp @ frac @ z @ off @ nl \<and> iso8601_parts stamp frac z off nl \<and>
          calendar_ok (fields_of (stamp @ (if frac = [] then ''.0'' else frac))) \<and>
          t = fields_of (stamp @ (if frac = [] then ''.0'' else frac)))) \<and>
   ((\<exists>t'. parse_datetime s = Inr t') \<or> parse_datetime s = Inl ValueError) \<and>
   (stamp_shape x \<longrightarrow> microsecond (fields_of (x @ ''.0'')) = 0)"
proof (intro conjI iffI)
  assume a: "parse_datetime s = Inr t"
  then obtain m where "re_match ISO8601_PAT s = Some m"
    by (auto simp: parse_datetime_def split: option.splits)
  from parse_datetime_of_match [OF this] obtain stamp frac z off nl where
    p: "s = stamp @ frac @ z @ off @ nl" "iso8601_parts stamp frac z off nl"
      "parse_datetime s = strptime_ISO8601 (stamp @ (if frac = [] then ''.0'' else frac))"
    by blast
  from p(2) have "stamp_shape stamp" "frac = [] \<or> frac_shape frac"
    by (simp_all add: iso8601_parts_def)
  from strptime_parts [OF this] a p(3)
  have "calendar_ok (fields_of (stamp @ (if frac = [] then ''.0'' else frac))) \<and>
        t = fields_of (stamp @ (if frac = [] then ''.0'' else frac))"
    by (auto split: if_splits)
  with p(1,2) show "\<exists>stamp frac z off nl.
          s = stamp @ frac @ z @ off @ nl \<and> iso8601_parts stamp frac z off nl \<and>
          calendar_ok (fields_of (stamp @ (if frac = [] then ''.0'' else frac))) \<and>
          t = fields_of (stamp @ (if frac = [] then ''.0'' else frac))"
    by blast
next
  assume "\<exists>stamp frac z off nl.
          s = stamp @ frac @ z @ off @ nl \<and> iso8601_parts stamp frac z off nl \<and>
          calendar_ok (fields_of (stamp @ (if frac = [] then ''.0'' else frac))) \<and>
          t = fields_of (stamp @ (if frac = [] then ''.0'' else frac))"
  then obtain stamp frac z off nl where
    p: "s = stamp @ frac @ z @ off @ nl" "iso8601_parts stamp frac z off nl"
      "calendar_ok (fields_of (stamp @ (if frac = [] then ''.0'' else frac)))"
      "t = fields_of (stamp @ (if frac = [] then ''.0'' else frac))"
    by blast
  from parse_datetime_parts [OF p(2,3)] p(1,4) show "parse_datetime s = Inr t" by simp
next
  show "(\<exists>t'. parse_datetime s = Inr t') \<or> parse_datetime s = Inl ValueError"
  proof (cases "re_match ISO8601_PAT s")
    case None
    then show ?thesis by (simp add: parse_datetime_def)
  next
    case (Some m)
    from parse_datetime_of_match [OF this] obtain stamp frac z off nl where
      p: "iso8601_parts stamp frac z off nl"
        "parse_datetime s = strptime_ISO8601 (stamp @ (if frac = [] then ''.0'' else frac))"
      by blast
    from p(1) have "stamp_shape stamp" "frac = [] \<or> frac_shape frac"
      by (simp_all add: iso8601_parts_def)
    from strptime_parts [OF this] p(2) show ?thesis by (auto split: if_splits)
  qed
next
  show "stamp_shape x \<longrightarrow> microsecond (fields_of (x @ ''.0'')) = 0"
    by (simp add: stamp_shape_def fields_of_def to_int_def foldl_zeros)
qed

lemma replicate_numeral': "replicate (numeral k) x = x # replicate (pred_numeral k) x"
  by (metis numeral_eq_Suc replicate.simps(2))

text \<open>
  A string with both \<open>Z\<close> and an offset is accepted, and so is one with a final
  newline after the stamp.
\<close>

theorem accepts_Z_and_offset:
  "parse_datetime ''2024-05-17T10:30:00Z+01:00'' =
     Inr \<lparr>year = 2024, month = 5, day = 17, hour = 10, minute = 30, second = 0, microsecond = 0\<rparr> \<and>
   parse_datetime (''2024-05-17T10:30:00'' @ [CHR 0x0A]) =
     Inr \<lparr>year = 2024, month = 5, day = 17, hour = 10, minute = 30, second = 0, microsecond = 0\<rparr>"
  by code_simp

text \<open>A leap day with a fraction and an offset without a colon.\<close>

theorem parse_datetime_accepts_witness:
  "parse_datetime ''2024-02-29T23:59:59.5-0330'' =
     Inr \<lparr>year = 2024, month = 2, day = 29, hour = 23, minute = 59, second = 59,
           microsecond = 500000\<rparr> \<and>
   stamp_shape ''2024-05-17T10:30:00'' \<and>
   microsecond (fields_of (''2024-05-17T10:30:00'' @ ''.0'')) = 0"
proof -
  let ?t = "\<lparr>year = 2024, month = 2, day = 29, hour = 23, minute = 59, second = 59,
           microsecond = 500000\<rparr>"
  have parts: "iso8601_parts ''2024-02-29T23:59:59'' ''.5'' [] ''-0330'' []"
    by (simp add: iso8601_parts_def stamp_shape_def frac_shape_def offset_shape_def is_digit_def)
  have f: "fields_of (''2024-02-29T23:59:59'' @ ''.5'') = ?t"
    by (simp add: fields_of_def to_int_def replicate_numeral')
  have c: "calendar_ok ?t"
    by (simp add: calendar_ok_def days_in_month_def is_leap_def)
  have "\<exists>stamp frac z off nl.
      ''2024-02-29T23:59:59.5-0330'' = stamp @ frac @ z @ off @ nl \<and>
      iso8601_parts stamp frac z off nl \<and>
      calendar_ok (fields_of (stamp @ (if frac = [] then ''.0'' else frac))) \<and>
      ?t = fields_of (stamp @ (if frac = [] then ''.0'' else frac))"
    apply (rule exI [of _ "''2024-02-29T23:59:59''"])
    apply (rule exI [of _ "''.5''"])
    apply (rule exI [of _ "[]"])
    apply (rule exI [of _ "''-0330''"])
    apply (rule exI [of _ "[]"])
    using parts f c by simp
  moreover have s: "stamp_shape ''2024-05-17T10:30:00''"
    by (simp add: stamp_shape_def is_digit_def)
  ultimately show ?thesis
    using parse_datetime_accepts [of "''2024-02-29T23:59:59.5-0330''" ?t "''2024-05-17T10:30:00''"]
    by blast
qed


section \<open>Timestamps written and read back\<close>

lemma zpad_length [simp]: "length (zpad n k) = n"
  by (induction n arbitrary: k) simp_all

lemma digit_nth: "d < 10 \<Longrightarrow> is_digit (''0123456789'' ! d) \<and> of_char (''0123456789'' ! d) = int d + 48"
proof -
  assume "d < 10"
  then have "d \<in> {0, 1, 2, 3, 4, 5, 6, 7, 8, 9}" by auto
  then show ?thesis by (auto simp: is_digit_def)
qed

lemma zpad_digits [simp]: "list_all is_digit (zpad n k)"
  by (induction n arbitrary: k) (simp_all add: digit_nth)

lemma to_int_snoc: "to_int (xs @ [c]) = 10 * to_int xs + (of_char c - 48)"
  by (simp add: to_int_def)

lemma to_int_zpad: "to_int (zpad n k) = int (k mod 10 ^ n)"
proof (induction n arbitrary: k)
  case 0
  show ?case by (simp add: to_int_def)
next
  case (Suc n)
  have "k mod 10 ^ Suc n = 10 * (k div 10 mod 10 ^ n) + k mod 10"
    by (simp add: mod_mult2_eq)
  then show ?case by (simp add: to_int_snoc Suc.IH digit_nth)
qed

lemma to_int_zpad_nat:
  "0 \<le> x \<Longrightarrow> x < 10 ^ n \<Longrightarrow> to_int (zpad n (nat x)) = x"
  by (simp add: to_int_zpad nat_less_iff flip: of_nat_power) 

lemma days_in_month_le: "days_in_month y m \<le> 31"
  by (simp add: days_in_month_def)

lemma parse_isoformat:
  assumes "valid_datetime t"
  shows "parse_datetime (isoformat t) = Inr t"
proof -
  let ?stamp = "zpad 4 (nat (year t)) @ ''-'' @ zpad 2 (nat (month t)) @ ''-'' @
      zpad 2 (nat (day t)) @ ''T'' @ zpad 2 (nat (hour t)) @ '':'' @ zpad 2 (nat (minute t)) @
      '':'' @ zpad 2 (nat (second t))"
  let ?frac = "if microsecond t = 0 then [] else ''.'' @ zpad 6 (nat (microsecond t))"
  from assms have b: "1 \<le> year t" "year t \<le> 9999" "1 \<le> month t" "month t \<le> 12"
    "1 \<le> day t" "day t \<le> 31" "0 \<le> hour t" "hour t \<le> 23" "0 \<le> minute t" "minute t \<le> 59"
    "0 \<le> second t" "second t \<le> 59" "0 \<le> microsecond t" "microsecond t \<le> 999999"
    using days_in_month_le [of "year t" "month t"]
    by (simp_all add: valid_datetime_def calendar_ok_def)
  have iso: "isoformat t = ?stamp @ ?frac @ [] @ [] @ []"
    by (simp add: isoformat_def)
  have shape: "stamp_shape ?stamp"
    by (simp add: stamp_shape_def nth_append)
  have fshape: "?frac = [] \<or> frac_shape ?frac"
    by (simp add: frac_shape_def)
  have parts: "iso8601_parts ?stamp ?frac [] [] []"
    using shape fshape by (simp add: iso8601_parts_def)
  have ints: "to_int (zpad 4 (nat (year t))) = year t" "to_int (zpad 2 (nat (month t))) = month t"
    "to_int (zpad 2 (nat (day t))) = day t" "to_int (zpad 2 (nat (hour t))) = hour t"
    "to_int (zpad 2 (nat (minute t))) = minute t" "to_int (zpad 2 (nat (second t))) = second t"
    "to_int (zpad 6 (nat (microsecond t))) = microsecond t"
    using b by (simp_all add: to_int_zpad_nat)
  have zero: "to_int (''0'' @ replicate 5 CHR ''0'') = 0"
    by (simp add: to_int_def foldl_zeros)
  have fields: "fields_of (?stamp @ (if ?frac = [] then ''.0'' else ?frac)) = t"
    using ints zero by (cases "microsecond t = 0") (simp_all add: fields_of_def)
  from assms have "calendar_ok t" by (simp add: valid_datetime_def)
  with fields have "calendar_ok (fields_of (?stamp @ (if ?frac = [] then ''.0'' else ?frac)))"
    by simp
  from parse_datetime_parts [OF parts this] fields iso show ?thesis by simp
qed

text \<open>
  Reading back what \<open>isoformat\<close> writes gives the same datetime, with and without
  microseconds.
\<close>

theorem isoformat_roundtrip:
  assumes "valid_datetime t"
  shows "parse_datetime (isoformat t) = Inr t"
  using assms by (rule parse_isoformat)

theorem isoformat_roundtrip_witness:
  "valid_datetime (clock world0) \<and>
   parse_datetime (isoformat (clock world0)) = Inr (clock world0) \<and>
   valid_datetime later \<and> isoformat later = ''2024-09-01T08:00:00'' \<and>
   parse_datetime ''2024-09-01T08:00:00'' = Inr later"
proof -
  have v: "valid_datetime (clock world0)" "valid_datetime later"
    by (simp_all add: valid_datetime_def calendar_ok_def world0_def later_def days_in_month_def)
  have i: "isoformat later = ''2024-09-01T08:00:00''"
    by (simp add: isoformat_def later_def zpad_numeral)
  from isoformat_roundtrip [OF v(1)] isoformat_roundtrip [OF v(2)] v i show ?thesis by simp
qed


section \<open>Further properties of the search list and of the gate\<close>

text \<open>
  On a platform other than Windows and macOS, with \<^verbatim>\<open>XDG_CONFIG_HOME\<close> unset, the
  search list is the user's directory and the empty string: \<^verbatim>\<open>''.split(':')\<close> is
  \<^verbatim>\<open>['']\<close>, which is not empty, so the alternative \<^verbatim>\<open>['/etc/xdg']\<close> is never taken.
\<close>

theorem default_search_list:
  assumes "platform e = Other" and "environ e ''XDG_CONFIG_HOME'' = None"
  shows "config_dirs e = [Some (expanduser e ''~/.config''), Some []]"
  using assms by (simp add: config_dirs_def config_dir_def environ_or_def)

theorem default_search_list_witness:
  "config_dirs env_linux = [Some ''/home/user/.config'', Some []] \<and>
   etph_paths env_linux (Str ''ipython'') (config_dirs env_linux) =
     Inr [user_path, ''etph/ipython.json'']"
proof -
  have "platform env_linux = Other" "environ env_linux ''XDG_CONFIG_HOME'' = None"
    by (simp_all add: env_linux_def)
  from default_search_list [OF this] show ?thesis
    by (simp add: env_linux_def etph_path_def percent_s_def posix_join_def join2_def
        user_path_def)
qed

text \<open>
  On Windows the data directory and the config directory are both \<^verbatim>\<open>APPDATA\<close>, so
  the state file and the user's config file have the same path.
\<close>

theorem windows_state_file_is_config_file:
  assumes "platform e = Win32"
  shows "etph_path e a (data_dir e) = etph_path e a (config_dir e)"
  using assms by (simp add: data_dir_def config_dir_def)

theorem windows_state_file_is_config_file_witness:
  "etph_path env_win (Str ''ipython'') (data_dir env_win) =
     Inr (''C:/Users/u/AppData/Roaming'' @ [CHR 0x5C] @ ''etph'' @ [CHR 0x5C] @ ''ipython.json'') \<and>
   etph_path env_win (Str ''ipython'') (config_dir env_win) =
     Inr (''C:/Users/u/AppData/Roaming'' @ [CHR 0x5C] @ ''etph'' @ [CHR 0x5C] @ ''ipython.json'')"
proof -
  have "platform env_win = Win32" by (simp add: env_win_def)
  from windows_state_file_is_config_file [OF this, of "Str ''ipython''"] show ?thesis
    by (simp add: env_win_def etph_path_def config_dir_def data_dir_def percent_s_def
        nt_join_def)
qed

text \<open>
  For every record that lines 128 to 131 write, the next read of lines 108 to 120
  raises \<open>KeyError\<close>: the timestamp parses, and the record has no \<open>user_id\<close> key.
\<close>

theorem written_record_is_not_read_back:
  assumes "valid_datetime now" and "fs w p = Object (submission_record now dst data)"
  shows "read_last p data' w = (Inl KeyError, w\<lparr>trace := trace w @ [Ev_open_r p]\<rparr>)"
  using assms parse_isoformat [OF assms(1)]
  by (simp add: read_last_def open_load_def dict_item_def submission_record_def)

theorem written_record_is_not_read_back_witness:
  "valid_datetime later \<and>
   read_last state_path payload
      (world0\<lparr>fs := (fs world0)(state_path := Object (submission_record later url payload))\<rparr>) =
     (Inl KeyError,
      world0\<lparr>fs := (fs world0)(state_path := Object (submission_record later url payload)),
             trace := [Ev_open_r state_path]\<rparr>)"
proof -
  have v: "valid_datetime later"
    by (simp add: valid_datetime_def calendar_ok_def later_def days_in_month_def)
  let ?w = "world0\<lparr>fs := (fs world0)(state_path := Object (submission_record later url payload))\<rparr>"
  have f: "fs ?w state_path = Object (submission_record later url payload)" by simp
  from written_record_is_not_read_back [OF v f, of payload] v show ?thesis
    by (simp add: world0_def)
qed

lemma objects_missing: "\<forall>p\<in>set ps. fs w p = Fails ENOENT \<Longrightarrow> objects w ps = []"
  by (induction ps) (simp_all add: objects_Cons objects_def)

text \<open>
  With none of the listed config files present the merged config is empty, and the
  body of \<open>trigger\<close> returns at once: no state file is read or written.
\<close>

theorem disabled_config_skips:
  assumes "\<forall>p\<in>set ps. fs w p = Fails ENOENT"
  shows "\<exists>w'. load_cfg ps Map.empty w = (Inr Map.empty, w') \<and> fs w' = fs w \<and>
           trigger_cfg Map.empty df data w' = (Inr (), w')"
proof -
  from assms have "\<forall>p\<in>set ps. fs w p = Fails ENOENT \<or> (\<exists>d. fs w p = Object d)" by simp
  from load_cfg_fold [OF this, of Map.empty] objects_missing [OF assms]
  have "load_cfg ps Map.empty w = (Inr Map.empty, w\<lparr>trace := trace w @ map Ev_open_r ps\<rparr>)"
    by simp
  then show ?thesis by (simp add: trigger_cfg_def dict_get_def)
qed

theorem disabled_config_skips_witness:
  "\<exists>w'. load_cfg [system_path, user_path] Map.empty world0 = (Inr Map.empty, w') \<and>
     fs w' = fs world0 \<and>
     trigger_cfg Map.empty (Inr state_path) payload w' = (Inr (), w')"
proof -
  have "\<forall>p\<in>set [system_path, user_path]. fs world0 p = Fails ENOENT"
    by (simp add: world0_def)
  from disabled_config_skips [OF this] show ?thesis .
qed

text \<open>
  With a state file that has a timestamp and a \<open>user_id\<close> at its top level, and
  the clock before the timestamp plus the interval, the body of \<open>trigger\<close> returns
  after reading the state file, which it leaves as it is.
\<close>

theorem too_soon_skips:
  assumes "truthy (dict_get cfg ''enabled'' (JBool False))"
    and "cfg ''destination'' = Some dst"
    and "send_interval cfg = Some iv"
    and "fs w p = Object r"
    and "r ''timestamp'' = Some (JStr ts)" and "parse_datetime ts = Inr last_sent_at"
    and "r ''user_id'' = Some uid"
    and "datetime_add last_sent_at iv = Inr due" and "due > usec_of (clock w)"
  shows "trigger_cfg cfg (Inr p) data w = (Inr (), w\<lparr>trace := trace w @ [Ev_open_r p]\<rparr>)"
  using assms
  by (simp add: trigger_cfg_def dict_item_def read_last_def open_load_def gate_and_submit_def
      Let_def)

text \<open>
  With such a state file and the interval over, the new record carries the old
  \<open>user_id\<close>, inside its data.
\<close>

theorem user_id_reused:
  assumes "truthy (dict_get cfg ''enabled'' (JBool False))"
    and "cfg ''destination'' = Some dst"
    and "send_interval cfg = Some iv"
    and "fs w p = Object r"
    and "r ''timestamp'' = Some (JStr ts)" and "parse_datetime ts = Inr last_sent_at"
    and "r ''user_id'' = Some uid"
    and "datetime_add last_sent_at iv = Inr due" and "\<not> due > usec_of (clock w)"
    and "wr_err w p = None"
  shows "fs (snd (trigger_cfg cfg (Inr p) data w)) p =
           Object (submission_record (clock w) dst (data(''user_id'' \<mapsto> uid)))"
  using assms
  by (simp add: trigger_cfg_def dict_item_def read_last_def open_load_def gate_and_submit_def
      persist_and_send_def open_dump_def send_def Let_def)

lemma parse_old:
  "parse_datetime ''2024-05-01T09:00:00'' =
     Inr \<lparr>year = 2024, month = 5, day = 1, hour = 9, minute = 0, second = 0, microsecond = 0\<rparr>"
  by code_simp

lemma usec_old:
  "usec_of \<lparr>year = 2024, month = 5, day = 1, hour = 9, minute = 0, second = 0, microsecond = 0\<rparr>
     = 63850237200000000"
  by (simp add: usec_of_def toordinal_def days_before_year_def days_before_month_def is_leap_def)

lemma usec_later: "usec_of later = 63860860800000000"
  by (simp add: usec_of_def later_def toordinal_def days_before_year_def days_before_month_def
      is_leap_def)

theorem too_soon_skips_witness:
  "trigger_cfg cfg_weekly (Inr state_path) payload world_old =
     (Inr (), world_old\<lparr>trace := [Ev_open_r state_path]\<rparr>)"
proof -
  let ?last = "\<lparr>year = 2024, month = 5, day = 1, hour = 9, minute = 0, second = 0, microsecond = 0\<rparr>"
  have 1: "truthy (dict_get cfg_weekly ''enabled'' (JBool False))"
    "cfg_weekly ''destination'' = Some url" "send_interval cfg_weekly = Some (timedelta_weeks 7)"
    by (simp_all add: cfg_weekly_def dict_get_def send_interval_def)
  have 2: "fs world_old state_path = Object old_record"
    "old_record ''timestamp'' = Some (JStr ''2024-05-01T09:00:00'')"
    "old_record ''user_id'' = Some (JStr ''u-17'')"
    by (simp_all add: world_old_def old_record_def)
  have 3: "datetime_add ?last (timedelta_weeks 7) = Inr 63854470800000000"
    by (simp add: datetime_add_def usec_old timedelta_weeks_def timedelta_days_def
        usec_per_day_def MAXORDINAL_def)
  have 4: "63854470800000000 > usec_of (clock world_old)"
    by (simp add: world_old_def usec_world0)
  from too_soon_skips [OF 1 2(1,2) parse_old 2(3) 3 4, of payload] show ?thesis
    by (simp add: world_old_def world0_def)
qed

theorem user_id_reused_witness:
  "fs (snd (trigger_cfg cfg_weekly (Inr state_path) payload (world_old\<lparr>clock := later\<rparr>)))
      state_path =
     Object [''timestamp'' \<mapsto> JStr ''2024-09-01T08:00:00'', ''destination'' \<mapsto> url,
             ''data'' \<mapsto> JObj (payload(''user_id'' \<mapsto> JStr ''u-17''))]"
proof -
  let ?last = "\<lparr>year = 2024, month = 5, day = 1, hour = 9, minute = 0, second = 0, microsecond = 0\<rparr>"
  let ?w = "world_old\<lparr>clock := later\<rparr>"
  have 1: "truthy (dict_get cfg_weekly ''enabled'' (JBool False))"
    "cfg_weekly ''destination'' = Some url" "send_interval cfg_weekly = Some (timedelta_weeks 7)"
    by (simp_all add: cfg_weekly_def dict_get_def send_interval_def)
  have 2: "fs ?w state_path = Object old_record"
    "old_record ''timestamp'' = Some (JStr ''2024-05-01T09:00:00'')"
    "old_record ''user_id'' = Some (JStr ''u-17'')"
    by (simp_all add: world_old_def old_record_def)
  have 3: "datetime_add ?last (timedelta_weeks 7) = Inr 63854470800000000"
    by (simp add: datetime_add_def usec_old timedelta_weeks_def timedelta_days_def
        usec_per_day_def MAXORDINAL_def)
  have 4: "\<not> 63854470800000000 > usec_of (clock ?w)"
    by (simp add: usec_later)
  have 5: "wr_err ?w state_path = None" by (simp add: world_old_def world0_def)
  have i: "isoformat later = ''2024-09-01T08:00:00''"
    by (simp add: isoformat_def later_def zpad_numeral)
  from user_id_reused [OF 1 2(1,2) parse_old 2(3) 3 4 5, of payload] show ?thesis
    by (simp add: submission_record_def i)
qed

end
